theory Spec2Isabelle
  imports Main
begin

section \<open>Python strings\<close>

text \<open>
  A Python \<open>str\<close> is a sequence of Unicode code points, so it is modelled as a list
  of naturals, not as a list of 8-bit characters. \<open>py\<close> turns a literal into such a
  list (the literals of the source used below are ASCII).
\<close>

type_synonym str = "nat list"

definition py :: "string \<Rightarrow> str" where
  "py s = map of_char s"

text \<open>
  \<open>str.strip()\<close> and \<open>str.title()\<close> consult the interpreter's Unicode character
  database, which is not part of the repository. It is taken as a parameter: a record of
  the five lookups the two methods make (\<open>Py_UNICODE_ISSPACE\<close>, \<open>_PyUnicode_IsCased\<close>,
  \<open>_PyUnicode_IsCaseIgnorable\<close>, \<open>_PyUnicode_ToTitleFull\<close>, \<open>_PyUnicode_ToLowerFull\<close>).
\<close>

record ucd =
  is_space :: "nat \<Rightarrow> bool"
  is_cased :: "nat \<Rightarrow> bool"
  is_case_ignorable :: "nat \<Rightarrow> bool"
  to_title_full :: "nat \<Rightarrow> nat list"
  to_lower_full :: "nat \<Rightarrow> nat list"

text \<open>\<open>s.strip()\<close>: leading and trailing whitespace removed.\<close>

definition strip_by :: "(nat \<Rightarrow> bool) \<Rightarrow> str \<Rightarrow> str" where
  "strip_by P s = rev (dropWhile P (rev (dropWhile P s)))"

definition strip :: "ucd \<Rightarrow> str \<Rightarrow> str" where
  "strip U s = strip_by (is_space U) s"

text \<open>
  Lowercasing one code point in its context: U+03A3 becomes the final sigma U+03C2 when
  a cased code point precedes it and none follows (case-ignorable code points skipped on
  both sides), U+03C3 otherwise; every other code point takes its full lowercase mapping.
\<close>

definition handle_capital_sigma :: "ucd \<Rightarrow> str \<Rightarrow> str \<Rightarrow> nat" where
  "handle_capital_sigma U before after =
     (let final_sigma =
            (case dropWhile (is_case_ignorable U) (rev before) of
               [] \<Rightarrow> False
             | c # _ \<Rightarrow> is_cased U c);
          final_sigma' =
            (if final_sigma
             then (case dropWhile (is_case_ignorable U) after of
                     [] \<Rightarrow> True
                   | c # _ \<Rightarrow> \<not> is_cased U c)
             else final_sigma)
      in if final_sigma' then 0x3C2 else 0x3C3)"

definition lower_ucs4 :: "ucd \<Rightarrow> str \<Rightarrow> nat \<Rightarrow> str \<Rightarrow> nat list" where
  "lower_ucs4 U before c after =
     (if c = 0x3A3 then [handle_capital_sigma U before after] else to_lower_full U c)"

text \<open>
  \<open>s.title()\<close>: a code point that follows a cased code point is lowercased, any other
  is titlecased; "follows a cased code point" is decided on the input, not on the output.
\<close>

fun do_title :: "ucd \<Rightarrow> str \<Rightarrow> str \<Rightarrow> bool \<Rightarrow> str" where
  "do_title U before [] previous_is_cased = []"
| "do_title U before (c # rest) previous_is_cased =
     (if previous_is_cased then lower_ucs4 U before c rest else to_title_full U c)
     @ do_title U (before @ [c]) rest (is_cased U c)"

definition title :: "ucd \<Rightarrow> str \<Rightarrow> str" where
  "title U s = do_title U [] s False"

text \<open>
  The normalisation of a condition name, \<open>condition_name.strip().title()\<close>, as written in
  \<open>find_or_create\<close>, \<open>get_condition_by_name\<close> and the constructor of \<open>HealthCondition\<close>.
\<close>

definition normalise :: "ucd \<Rightarrow> str \<Rightarrow> str" where
  "normalise U s = title U (strip U s)"

subsection \<open>The ASCII rows of the database\<close>

definition ascii_letter :: "nat \<Rightarrow> bool" where
  "ascii_letter c = ((65 \<le> c \<and> c \<le> 90) \<or> (97 \<le> c \<and> c \<le> 122))"

definition ascii_upper :: "nat \<Rightarrow> nat" where
  "ascii_upper c = (if 97 \<le> c \<and> c \<le> 122 then c - 32 else c)"

definition ascii_lower :: "nat \<Rightarrow> nat" where
  "ascii_lower c = (if 65 \<le> c \<and> c \<le> 90 then c + 32 else c)"

definition ascii_space :: "nat \<Rightarrow> bool" where
  "ascii_space c = ((9 \<le> c \<and> c \<le> 13) \<or> (28 \<le> c \<and> c \<le> 32))"

text \<open>A database has the ASCII rows when it treats the code points below 128 as Unicode does.\<close>

definition ascii_rows :: "ucd \<Rightarrow> bool" where
  "ascii_rows U =
     (\<forall>c < 128. is_space U c = ascii_space c \<and> is_cased U c = ascii_letter c
        \<and> to_title_full U c = [ascii_upper c] \<and> to_lower_full U c = [ascii_lower c])"

text \<open>
  An excerpt of the database: the whitespace code points, the ASCII rows, and the rows of
  U+01F0 (LATIN SMALL LETTER J WITH CARON: cased, titlecased to U+004A U+030C) and
  U+030C (COMBINING CARON: not cased, case-ignorable). The statements about all strings
  below are made for an arbitrary database; the excerpt serves the closed examples, on
  inputs made of code points it covers.
\<close>

definition ucd_excerpt :: ucd where
  "ucd_excerpt =
     \<lparr> is_space = (\<lambda>c. ascii_space c \<or> c = 0x85 \<or> c = 0xA0 \<or> c = 0x1680
                       \<or> (0x2000 \<le> c \<and> c \<le> 0x200A) \<or> c = 0x2028 \<or> c = 0x2029
                       \<or> c = 0x202F \<or> c = 0x205F \<or> c = 0x3000),
       is_cased = (\<lambda>c. ascii_letter c \<or> c = 0x1F0),
       is_case_ignorable = (\<lambda>c. c = 0x27 \<or> c = 0x2E \<or> c = 0x3A \<or> c = 0x5E \<or> c = 0x60
                                \<or> c = 0x30C),
       to_title_full = (\<lambda>c. if c = 0x1F0 then [0x4A, 0x30C] else [ascii_upper c]),
       to_lower_full = (\<lambda>c. [ascii_lower c]) \<rparr>"

text \<open>\<open>title\<close> on ASCII input, without the database.\<close>

fun ascii_title :: "str \<Rightarrow> bool \<Rightarrow> str" where
  "ascii_title [] p = []"
| "ascii_title (c # cs) p =
     (if p then ascii_lower c else ascii_upper c) # ascii_title cs (ascii_letter c)"

subsection \<open>Code points with a stable casing\<close>




section \<open>Errors\<close>

text \<open>
  The calls \<open>process_input\<close> makes on the storage: loading the memory, the card's
  \<open>find_or_create\<close>, appending to the summary, inserting the log.
\<close>

datatype storage_request = LoadMemory | UpsertCard | AppendSummary | InsertLog

text \<open>
  The exceptions the modelled code raises, as values. \<open>ValueError\<close> and
  \<open>RuntimeError\<close> carry their message; \<open>InvalidId\<close> is raised by \<open>ObjectId(...)\<close>
  on a string that is not an object id, \<open>DuplicateKeyError\<close> by an insert that violates a
  unique index; \<open>KeyError\<close>, \<open>TypeError\<close> and \<open>AttributeError\<close> are raised by the
  interpreter on a value of the wrong shape. \<open>APIError\<close> is an error of the oracle's
  client, and \<open>StorageFailure\<close> an error of the storage's driver when the storage cannot
  be reached, with the call during which it was raised.
\<close>

datatype error =
    ValueError str
  | RuntimeError str
  | InvalidId
  | DuplicateKeyError
  | KeyError str
  | TypeError
  | AttributeError
  | APIError
  | StorageFailure storage_request

section \<open>Object ids\<close>

text \<open>
  \<open>bson.ObjectId\<close> is a library class, modelled from its documentation: it accepts a
  string of 24 hexadecimal digits and raises \<open>InvalidId\<close> otherwise; \<open>str\<close> of an
  object id is its lower-case hexadecimal form, which is how an id is represented here.
  The ids the storage generates for new documents are modelled as naturals.
\<close>

definition is_hex :: "nat \<Rightarrow> bool" where
  "is_hex c = ((48 \<le> c \<and> c \<le> 57) \<or> (65 \<le> c \<and> c \<le> 70) \<or> (97 \<le> c \<and> c \<le> 102))"

definition ObjectId :: "str \<Rightarrow> error + str" where
  "ObjectId s = (if length s = 24 \<and> list_all is_hex s then Inr (map ascii_lower s)
                 else Inl InvalidId)"

section \<open>Condition cards\<close>

datatype ConditionStatus = ACTIVE | RESOLVED

text \<open>
  The entity \<open>HealthCondition\<close>. Timestamps are naturals; every reading of the clock
  made during one call of a service method is modelled by the one reading \<open>now\<close> that the
  call is given.
\<close>

record HealthCondition =
  hc_id :: "nat option"
  hc_user_id :: str
  hc_condition_name :: str
  hc_status :: ConditionStatus
  hc_log_count :: int
  hc_first_reported :: nat
  hc_last_reported :: nat
  hc_created_at :: nat
  hc_updated_at :: nat

text \<open>
  A document of the collection \<open>health_conditions\<close>, with the fields \<open>to_dict\<close> writes.
  The status is stored as the enum's value; the document keeps it as the enum.
\<close>

record condition_doc =
  d_id :: nat
  d_user_id :: str
  d_condition_name :: str
  d_status :: ConditionStatus
  d_log_count :: int
  d_first_reported :: nat
  d_last_reported :: nat
  d_created_at :: nat
  d_updated_at :: nat

text \<open>
  \<open>HealthCondition.__init__\<close>: the name is normalised again, whatever the caller passed;
  a timestamp that is not given defaults to the clock.
\<close>

definition HealthCondition_init ::
  "ucd \<Rightarrow> nat \<Rightarrow> str \<Rightarrow> str \<Rightarrow> ConditionStatus \<Rightarrow> int \<Rightarrow> nat option \<Rightarrow> nat option
     \<Rightarrow> nat option \<Rightarrow> nat option \<Rightarrow> nat option \<Rightarrow> HealthCondition" where
  "HealthCondition_init U now user_id condition_name status log_count first_reported
      last_reported ident created_at updated_at =
     \<lparr> hc_id = ident,
       hc_user_id = user_id,
       hc_condition_name = normalise U condition_name,
       hc_status = status,
       hc_log_count = log_count,
       hc_first_reported = (case first_reported of None \<Rightarrow> now | Some t \<Rightarrow> t),
       hc_last_reported = (case last_reported of None \<Rightarrow> now | Some t \<Rightarrow> t),
       hc_created_at = (case created_at of None \<Rightarrow> now | Some t \<Rightarrow> t),
       hc_updated_at = (case updated_at of None \<Rightarrow> now | Some t \<Rightarrow> t) \<rparr>"

text \<open>\<open>HealthCondition.from_dict\<close>, on a document of the collection.\<close>

definition from_dict :: "ucd \<Rightarrow> nat \<Rightarrow> condition_doc \<Rightarrow> HealthCondition" where
  "from_dict U now data =
     HealthCondition_init U now (d_user_id data) (d_condition_name data) (d_status data)
       (d_log_count data) (Some (d_first_reported data)) (Some (d_last_reported data))
       (Some (d_id data)) (Some (d_created_at data)) (Some (d_updated_at data))"

text \<open>
  \<open>HealthCondition.to_dict\<close> of a card that has no id yet: the document without its
  \<open>_id\<close> (the field \<open>d_id\<close> is filled in by the insert). \<open>ObjectId(self.user_id)\<close> can raise.
\<close>

definition to_dict :: "HealthCondition \<Rightarrow> error + condition_doc" where
  "to_dict crd =
     (case ObjectId (hc_user_id crd) of
        Inl e \<Rightarrow> Inl e
      | Inr ou \<Rightarrow>
          Inr \<lparr> d_id = 0,
                d_user_id = ou,
                d_condition_name = hc_condition_name crd,
                d_status = hc_status crd,
                d_log_count = hc_log_count crd,
                d_first_reported = hc_first_reported crd,
                d_last_reported = hc_last_reported crd,
                d_created_at = hc_created_at crd,
                d_updated_at = hc_updated_at crd \<rparr>)"

definition touch :: "nat \<Rightarrow> HealthCondition \<Rightarrow> HealthCondition" where
  "touch now crd = crd\<lparr>hc_updated_at := now\<rparr>"

definition record_new_log :: "nat \<Rightarrow> HealthCondition \<Rightarrow> HealthCondition" where
  "record_new_log now crd =
     touch now (crd\<lparr>hc_log_count := hc_log_count crd + 1, hc_last_reported := now\<rparr>)"

definition resolve :: "nat \<Rightarrow> HealthCondition \<Rightarrow> HealthCondition" where
  "resolve now crd = touch now (crd\<lparr>hc_status := RESOLVED\<rparr>)"

definition reactivate :: "nat \<Rightarrow> HealthCondition \<Rightarrow> HealthCondition" where
  "reactivate now crd = touch now (crd\<lparr>hc_status := ACTIVE\<rparr>)"

section \<open>The collection of condition cards\<close>

text \<open>
  The collection is the list of its documents, in insertion order, with the counter the
  storage draws fresh ids from. The service creates the unique index
  \<open>uq_user_condition\<close> on \<open>(user_id, condition_name)\<close> when it is constructed, so an
  insert of a second document with the same pair raises \<open>DuplicateKeyError\<close>.
\<close>

record conditions =
  docs :: "condition_doc list"
  next_id :: nat

definition same_key :: "str \<Rightarrow> str \<Rightarrow> condition_doc \<Rightarrow> bool" where
  "same_key user name d = (d_user_id d = user \<and> d_condition_name d = name)"

definition find_one :: "conditions \<Rightarrow> str \<Rightarrow> str \<Rightarrow> condition_doc option" where
  "find_one coll user name = find (same_key user name) (docs coll)"

definition insert_one :: "conditions \<Rightarrow> condition_doc \<Rightarrow> error + (nat \<times> conditions)" where
  "insert_one coll doc =
     (if list_ex (same_key (d_user_id doc) (d_condition_name doc)) (docs coll)
      then Inl DuplicateKeyError
      else Inr (next_id coll,
                coll\<lparr>docs := docs coll @ [doc\<lparr>d_id := next_id coll\<rparr>],
                     next_id := Suc (next_id coll)\<rparr>))"

text \<open>\<open>update_one\<close> changes the first document that matches, if there is one.\<close>

fun update_first :: "('a \<Rightarrow> bool) \<Rightarrow> ('a \<Rightarrow> 'a) \<Rightarrow> 'a list \<Rightarrow> 'a list" where
  "update_first P f [] = []"
| "update_first P f (x # xs) = (if P x then f x # xs else x # update_first P f xs)"

definition set_fields :: "HealthCondition \<Rightarrow> condition_doc \<Rightarrow> condition_doc" where
  "set_fields crd d =
     d\<lparr>d_log_count := hc_log_count crd, d_last_reported := hc_last_reported crd,
       d_status := hc_status crd, d_updated_at := hc_updated_at crd\<rparr>"

definition update_one :: "conditions \<Rightarrow> nat option \<Rightarrow> HealthCondition \<Rightarrow> conditions" where
  "update_one coll ident crd =
     coll\<lparr>docs := update_first (\<lambda>d. Some (d_id d) = ident) (set_fields crd) (docs coll)\<rparr>"

section \<open>find_or_create\<close>

type_synonym foc_result = "error + (HealthCondition \<times> bool)"

definition find_or_create ::
  "ucd \<Rightarrow> nat \<Rightarrow> conditions \<Rightarrow> str \<Rightarrow> str \<Rightarrow> foc_result \<times> conditions" where
  "find_or_create U now coll user_id condition_name =
     (let normalised = normalise U condition_name in
      case ObjectId user_id of
        Inl e \<Rightarrow> (Inl e, coll)
      | Inr ou \<Rightarrow>
          (case find_one coll ou normalised of
             Some doc \<Rightarrow>
               (let crd = record_new_log now (from_dict U now doc);
                    crd' = (if hc_status crd = RESOLVED then reactivate now crd else crd)
                in (Inr (crd', False), update_one coll (hc_id crd') crd'))
           | None \<Rightarrow>
               (let crd = HealthCondition_init U now user_id normalised ACTIVE 1
                             (Some now) (Some now) None None None
                in case to_dict crd of
                     Inl e \<Rightarrow> (Inl e, coll)
                   | Inr doc \<Rightarrow>
                       (case insert_one coll doc of
                          Inl e \<Rightarrow> (Inl e, coll)
                        | Inr (i, coll') \<Rightarrow> (Inr (crd\<lparr>hc_id := Some i\<rparr>, True), coll')))))"

text \<open>\<open>resolve_condition\<close>: the explicit resolve action.\<close>

definition resolve_condition ::
  "ucd \<Rightarrow> nat \<Rightarrow> conditions \<Rightarrow> nat \<Rightarrow> HealthCondition option \<times> conditions" where
  "resolve_condition U now coll condition_id =
     (case find (\<lambda>d. d_id d = condition_id) (docs coll) of
        None \<Rightarrow> (None, coll)
      | Some doc \<Rightarrow>
          (let crd = resolve now (from_dict U now doc)
           in (Some crd,
               coll\<lparr>docs := update_first (\<lambda>d. Some (d_id d) = hc_id crd)
                               (\<lambda>d. d\<lparr>d_status := hc_status crd,
                                       d_updated_at := hc_updated_at crd\<rparr>) (docs coll)\<rparr>)))"

subsection \<open>Concurrent calls\<close>

text \<open>
  \<open>find_or_create\<close> makes two requests to the storage, the \<open>find_one\<close> and then the
  \<open>update_one\<close> or \<open>insert_one\<close>; each request is atomic, and requests of other calls
  can be served between the two. \<open>foc_read\<close> is the call up to its \<open>find_one\<close>,
  \<open>foc_write\<close> the rest of it, run on the collection as it is by then.
\<close>

definition foc_read :: "ucd \<Rightarrow> conditions \<Rightarrow> str \<Rightarrow> str \<Rightarrow> error + condition_doc option" where
  "foc_read U coll user_id condition_name =
     (case ObjectId user_id of
        Inl e \<Rightarrow> Inl e
      | Inr ou \<Rightarrow> Inr (find_one coll ou (normalise U condition_name)))"

definition foc_write ::
  "ucd \<Rightarrow> nat \<Rightarrow> conditions \<Rightarrow> str \<Rightarrow> str \<Rightarrow> condition_doc option \<Rightarrow> foc_result \<times> conditions"
  where
  "foc_write U now coll user_id condition_name found =
     (let normalised = normalise U condition_name in
      case found of
        Some doc \<Rightarrow>
          (let crd = record_new_log now (from_dict U now doc);
               crd' = (if hc_status crd = RESOLVED then reactivate now crd else crd)
           in (Inr (crd', False), update_one coll (hc_id crd') crd'))
      | None \<Rightarrow>
          (let crd = HealthCondition_init U now user_id normalised ACTIVE 1
                        (Some now) (Some now) None None None
           in case to_dict crd of
                Inl e \<Rightarrow> (Inl e, coll)
              | Inr doc \<Rightarrow>
                  (case insert_one coll doc of
                     Inl e \<Rightarrow> (Inl e, coll)
                   | Inr (i, coll') \<Rightarrow> (Inr (crd\<lparr>hc_id := Some i\<rparr>, True), coll'))))"

text \<open>
  A schedule is a list of events: a call begins (and makes its read), or the pending call
  at some position makes its write and returns. A configuration holds the collection, the
  calls that have read and not yet written, and the calls that have returned, each with
  its arguments.
\<close>

datatype event = Begin str str | Finish nat nat

record config =
  db :: conditions
  pending :: "(str \<times> str \<times> condition_doc option) list"
  finished :: "(str \<times> str \<times> foc_result) list"

definition step :: "ucd \<Rightarrow> config \<Rightarrow> event \<Rightarrow> config" where
  "step U c ev =
     (case ev of
        Begin user_id condition_name \<Rightarrow>
          (case foc_read U (db c) user_id condition_name of
             Inl e \<Rightarrow> c\<lparr>finished := finished c @ [(user_id, condition_name, Inl e)]\<rparr>
           | Inr found \<Rightarrow> c\<lparr>pending := pending c @ [(user_id, condition_name, found)]\<rparr>)
      | Finish i now \<Rightarrow>
          (if i < length (pending c)
           then (case pending c ! i of
                   (user_id, condition_name, found) \<Rightarrow>
                     (case foc_write U now (db c) user_id condition_name found of
                        (r, coll') \<Rightarrow>
                          c\<lparr>db := coll',
                            pending := take i (pending c) @ drop (Suc i) (pending c),
                            finished := finished c @ [(user_id, condition_name, r)]\<rparr>))
           else c))"

fun run :: "ucd \<Rightarrow> config \<Rightarrow> event list \<Rightarrow> config" where
  "run U c [] = c"
| "run U c (ev # evs) = run U (step U c ev) evs"

definition init_config :: "conditions \<Rightarrow> config" where
  "init_config coll = \<lparr>db = coll, pending = [], finished = []\<rparr>"

text \<open>Sequential calls with the same arguments, one clock reading each.\<close>

fun calls :: "ucd \<Rightarrow> conditions \<Rightarrow> str \<Rightarrow> str \<Rightarrow> nat list \<Rightarrow> foc_result list \<times> conditions"
  where
  "calls U coll user_id condition_name [] = ([], coll)"
| "calls U coll user_id condition_name (now # nows) =
     (case find_or_create U now coll user_id condition_name of
        (r, coll') \<Rightarrow>
          (case calls U coll' user_id condition_name nows of
             (rs, coll'') \<Rightarrow> (r # rs, coll'')))"

subsection \<open>What the storage guarantees\<close>

text \<open>
  The unique index: no two documents with the same (owner, name). Ids are unique and
  were drawn from the counter. \<open>count_cards\<close> is the number of cards of a pair.
\<close>

definition unique_index :: "conditions \<Rightarrow> bool" where
  "unique_index coll = distinct (map (\<lambda>d. (d_user_id d, d_condition_name d)) (docs coll))"

definition ids_ok :: "conditions \<Rightarrow> bool" where
  "ids_ok coll = (distinct (map d_id (docs coll)) \<and> list_all (\<lambda>d. d_id d < next_id coll) (docs coll))"

definition count_cards :: "conditions \<Rightarrow> str \<Rightarrow> str \<Rightarrow> nat" where
  "count_cards coll user name = length (filter (same_key user name) (docs coll))"

definition keys :: "conditions \<Rightarrow> (str \<times> str) list" where
  "keys coll = map (\<lambda>d. (d_user_id d, d_condition_name d)) (docs coll)"

text \<open>
  What holds of a configuration during a run: the index is unique; a pending call that
  found a card still has it; a call that has returned, for a valid user and a normalised
  name, has its card.
\<close>

definition run_inv :: "ucd \<Rightarrow> config \<Rightarrow> bool" where
  "run_inv U c =
     (unique_index (db c)
      \<and> (\<forall>(u, n, f) \<in> set (pending c). \<forall>ou. ObjectId u = Inr ou \<longrightarrow> f \<noteq> None
             \<longrightarrow> (ou, normalise U n) \<in> set (keys (db c)))
      \<and> (\<forall>(u, n, r) \<in> set (finished c). \<forall>ou. ObjectId u = Inr ou \<longrightarrow> normalise U n = n
             \<longrightarrow> (ou, n) \<in> set (keys (db c))))"

definition succeeded :: "foc_result \<Rightarrow> bool" where
  "succeeded r = (case r of Inl _ \<Rightarrow> False | Inr _ \<Rightarrow> True)"

definition empty_conditions :: conditions where
  "empty_conditions = \<lparr>docs = [], next_id = 0\<rparr>"

definition user1 :: str where
  "user1 = py ''65f0c0ffee65f0c0ffee0001''"

text \<open>Two first-time reports of the same condition whose calls overlap.\<close>

definition race :: "event list" where
  "race = [Begin user1 (py ''Flu''), Begin user1 (py ''Flu''), Finish 0 1, Finish 0 2]"

text \<open>A collection with one card, resolved after three reports.\<close>

definition flu_resolved :: conditions where
  "flu_resolved =
     \<lparr>docs = [\<lparr>d_id = 0, d_user_id = user1, d_condition_name = py ''Flu'',
               d_status = RESOLVED, d_log_count = 3, d_first_reported = 1,
               d_last_reported = 5, d_created_at = 1, d_updated_at = 6\<rparr>],
      next_id = 1\<rparr>"

section \<open>The agent: values, memory, logs\<close>

text \<open>
  The value \<open>json.loads\<close> returns, and the values of the result dictionary. A dictionary
  is the list of its items in insertion order. Numbers are integers: a number with a
  fraction is not modelled.
\<close>

datatype json =
    JNull
  | JBool bool
  | JInt int
  | JStr str
  | JList "json list"
  | JDict "(str \<times> json) list"

text \<open>The truth value of a Python value.\<close>

fun truthy :: "json \<Rightarrow> bool" where
  "truthy JNull = False"
| "truthy (JBool b) = b"
| "truthy (JInt n) = (n \<noteq> 0)"
| "truthy (JStr s) = (s \<noteq> [])"
| "truthy (JList xs) = (xs \<noteq> [])"
| "truthy (JDict d) = (d \<noteq> [])"

type_synonym dict = "(str \<times> json) list"

definition dict_get :: "dict \<Rightarrow> str \<Rightarrow> json option" where
  "dict_get d k = map_of d k"

text \<open>\<open>d[k] = v\<close>: an existing key keeps its position.\<close>

fun dict_set :: "str \<Rightarrow> json \<Rightarrow> dict \<Rightarrow> dict" where
  "dict_set k v [] = [(k, v)]"
| "dict_set k v ((k', v') # d) = (if k' = k then (k, v) # d else (k', v') # dict_set k v d)"

text \<open>\<open>d.get(k, default)\<close>.\<close>

definition get_or :: "dict \<Rightarrow> str \<Rightarrow> json \<Rightarrow> json" where
  "get_or d k dflt = (case dict_get d k of None \<Rightarrow> dflt | Some v \<Rightarrow> v)"

text \<open>
  The string form of an id the storage generated, as the result dictionary carries it:
  24 hexadecimal digits. The ids of the collections are counters here.
\<close>

definition hex_digit :: "nat \<Rightarrow> nat" where
  "hex_digit d = (if d < 10 then 48 + d else 87 + d)"

fun hex_of :: "nat \<Rightarrow> nat \<Rightarrow> str" where
  "hex_of 0 v = []"
| "hex_of (Suc k) v = hex_of k (v div 16) @ [hex_digit (v mod 16)]"

definition id_str :: "nat \<Rightarrow> str" where
  "id_str i = hex_of 24 i"

text \<open>The members of \<open>InputMode\<close>; \<open>ALL_INPUTS\<close> is the member \<open>ALL\<close>, a reserved word here.\<close>

datatype InputMode = TEXT | VOICE | IMAGE | TEXT_IMAGE | TEXT_VOICE | VOICE_IMAGE | ALL_INPUTS

record PersonaPreferences =
  tone :: str
  name_used :: str
  mascot_name :: str

definition default_preferences :: PersonaPreferences where
  "default_preferences =
     \<lparr>tone = py ''gentle'', name_used = py ''friend'', mascot_name = py ''Barnaby the Bear''\<rparr>"

record MascotMemory =
  mm_id :: "nat option"
  mm_user_id :: str
  mm_persona_preferences :: PersonaPreferences
  mm_summary_memory :: str
  mm_created_at :: nat
  mm_updated_at :: nat

record memory_doc =
  m_id :: nat
  m_user_id :: str
  m_persona_preferences :: PersonaPreferences
  m_summary_memory :: str
  m_created_at :: nat
  m_updated_at :: nat

text \<open>A document of \<open>condition_logs\<close>; the fields taken from the oracle's answer are stored as they came.\<close>

record log_doc =
  l_id :: nat
  l_user_id :: str
  l_condition_name :: json
  l_pain_level :: json
  l_location :: json
  l_details :: json
  l_symptom_timestamp :: json
  l_input_mode :: InputMode
  l_mascot_response :: json
  l_mascot_notes :: json
  l_condition_id :: "nat option"
  l_created_at :: nat

text \<open>
  The stored state: the three collections. \<open>mascot_memory\<close> and \<open>condition_logs\<close> have
  no unique index; each collection draws the ids of its new documents from a counter.
\<close>

record store =
  st_conditions :: conditions
  st_memory :: "memory_doc list"
  st_memory_next :: nat
  st_logs :: "log_doc list"
  st_logs_next :: nat

definition empty_store :: store where
  "empty_store = \<lparr>st_conditions = empty_conditions, st_memory = [], st_memory_next = 0,
                    st_logs = [], st_logs_next = 0\<rparr>"

subsection \<open>Memory\<close>

definition memory_from_dict :: "memory_doc \<Rightarrow> MascotMemory" where
  "memory_from_dict data =
     \<lparr>mm_id = Some (m_id data), mm_user_id = m_user_id data,
      mm_persona_preferences = m_persona_preferences data,
      mm_summary_memory = m_summary_memory data,
      mm_created_at = m_created_at data, mm_updated_at = m_updated_at data\<rparr>"

definition get_memory :: "store \<Rightarrow> str \<Rightarrow> error + MascotMemory option" where
  "get_memory st user_id =
     (case ObjectId user_id of
        Inl e \<Rightarrow> Inl e
      | Inr ou \<Rightarrow> Inr (map_option memory_from_dict (find (\<lambda>d. m_user_id d = ou) (st_memory st))))"

text \<open>The document a first interaction creates: default preferences, empty summary.\<close>

definition blank_memory_doc :: "nat \<Rightarrow> nat \<Rightarrow> str \<Rightarrow> memory_doc" where
  "blank_memory_doc ident now ou =
     \<lparr>m_id = ident, m_user_id = ou, m_persona_preferences = default_preferences,
      m_summary_memory = [], m_created_at = now, m_updated_at = now\<rparr>"

definition get_or_create_memory :: "nat \<Rightarrow> store \<Rightarrow> str \<Rightarrow> (error + MascotMemory) \<times> store" where
  "get_or_create_memory now st user_id =
     (case get_memory st user_id of
        Inl e \<Rightarrow> (Inl e, st)
      | Inr (Some memory) \<Rightarrow> (Inr memory, st)
      | Inr None \<Rightarrow>
          (case ObjectId user_id of
             Inl e \<Rightarrow> (Inl e, st)
           | Inr ou \<Rightarrow>
               (Inr \<lparr>mm_id = Some (st_memory_next st), mm_user_id = user_id,
                     mm_persona_preferences = default_preferences, mm_summary_memory = [],
                     mm_created_at = now, mm_updated_at = now\<rparr>,
                st\<lparr>st_memory := st_memory st @ [blank_memory_doc (st_memory_next st) now ou],
                   st_memory_next := Suc (st_memory_next st)\<rparr>)))"

text \<open>\<open>_save\<close>: bump \<open>updated_at\<close> and write preferences, summary and \<open>updated_at\<close> back.\<close>

definition save_memory :: "nat \<Rightarrow> store \<Rightarrow> MascotMemory \<Rightarrow> MascotMemory \<times> store" where
  "save_memory now st memory =
     (let memory' = memory\<lparr>mm_updated_at := now\<rparr>
      in (memory',
          st\<lparr>st_memory := update_first (\<lambda>d. Some (m_id d) = mm_id memory')
                (\<lambda>d. d\<lparr>m_persona_preferences := mm_persona_preferences memory',
                        m_summary_memory := mm_summary_memory memory',
                        m_updated_at := mm_updated_at memory'\<rparr>) (st_memory st)\<rparr>))"

definition append_to_summary ::
  "nat \<Rightarrow> store \<Rightarrow> str \<Rightarrow> str \<Rightarrow> (error + MascotMemory) \<times> store" where
  "append_to_summary now st user_id addition =
     (case get_or_create_memory now st user_id of
        (Inl e, st') \<Rightarrow> (Inl e, st')
      | (Inr memory, st') \<Rightarrow>
          (let memory' =
                 (if mm_summary_memory memory \<noteq> []
                  then memory\<lparr>mm_summary_memory := mm_summary_memory memory @ [10] @ addition\<rparr>
                  else memory\<lparr>mm_summary_memory := addition\<rparr>)
           in (case save_memory now st' memory' of (m, st'') \<Rightarrow> (Inr m, st''))))"

text \<open>
  The one change that loading the memory can make to the stored state: the blank document
  of a user who had none.
\<close>

definition memory_created :: "nat \<Rightarrow> store \<Rightarrow> str \<Rightarrow> store \<Rightarrow> bool" where
  "memory_created now st u st1 \<longleftrightarrow>
     (\<exists>ou. get_memory st u = Inr None \<and> ObjectId u = Inr ou \<and>
        st1 = st\<lparr>st_memory := st_memory st @ [blank_memory_doc (st_memory_next st) now ou],
                 st_memory_next := Suc (st_memory_next st)\<rparr>)"

section \<open>The agent: process_input\<close>

text \<open>
  What lies outside the repository is a parameter: the Unicode database, \<open>json.loads\<close>
  (\<open>None\<close> for a \<open>JSONDecodeError\<close>), the oracle (the text of the response to a system
  instruction and a list of contents; it can raise an error of its own), the text of the
  prompt templates, \<open>str()\<close> of a value that is not a string, and which of the calls on
  the storage find it out of reach.
\<close>

datatype part = Part_from_bytes "nat list" str | Part_from_text json

datatype content = Content str "part list"

record env =
  unicode :: ucd
  json_loads :: "str \<Rightarrow> dict option option"
  generate_content :: "str \<Rightarrow> content list \<Rightarrow> error + str option"
  render_instruction :: "PersonaPreferences \<Rightarrow> str \<Rightarrow> nat \<Rightarrow> str"
  memory_empty_note :: "str \<Rightarrow> str"
  force_log_instruction :: str
  py_repr :: "json \<Rightarrow> str"
  storage_fails :: "storage_request \<Rightarrow> bool"

text \<open>
  A call on the storage that finds it out of reach raises and changes nothing. The code
  has no handler for it, so the error ends the run. (Each of the four calls changes the
  stored state by its last request only, so a call that fails at any of its requests
  leaves the state it found; \<open>append_to_summary\<close> is called when the memory exists.)
\<close>

definition storage_call ::
  "env \<Rightarrow> storage_request \<Rightarrow> store \<Rightarrow> (error + 'a) \<times> store \<Rightarrow> (error + 'a) \<times> store" where
  "storage_call E request st outcome =
     (if storage_fails E request then (Inl (StorageFailure request), st) else outcome)"

text \<open>An uploaded file: its bytes, and the attributes \<open>content_type\<close> and \<open>filename\<close>.\<close>

record file_storage =
  f_data :: "nat list"
  f_content_type :: "str option"
  f_filename :: "str option"

record arguments =
  a_user_id :: str
  a_text :: "str option"
  a_audio_file :: "file_storage option"
  a_image_file :: "file_storage option"
  a_force_log :: bool
  a_conversation_history :: "json option"
  a_audio_bytes :: "nat list option"
  a_audio_mime :: str
  a_image_bytes :: "nat list option"
  a_image_mime :: str

definition AUDIO_EXT_MAP :: "(str \<times> str) list" where
  "AUDIO_EXT_MAP =
     [(py ''.webm'', py ''audio/webm''), (py ''.m4a'', py ''audio/mp4''),
      (py ''.mp3'', py ''audio/mpeg''), (py ''.wav'', py ''audio/wav''),
      (py ''.ogg'', py ''audio/ogg''), (py ''.aac'', py ''audio/aac'')]"

definition IMAGE_EXT_MAP :: "(str \<times> str) list" where
  "IMAGE_EXT_MAP =
     [(py ''.jpg'', py ''image/jpeg''), (py ''.jpeg'', py ''image/jpeg''),
      (py ''.png'', py ''image/png''), (py ''.gif'', py ''image/gif''),
      (py ''.webp'', py ''image/webp''), (py ''.heic'', py ''image/heic'')]"

fun lower_from :: "ucd \<Rightarrow> str \<Rightarrow> str \<Rightarrow> str" where
  "lower_from U before [] = []"
| "lower_from U before (c # rest) = lower_ucs4 U before c rest @ lower_from U (before @ [c]) rest"

definition lower :: "ucd \<Rightarrow> str \<Rightarrow> str" where
  "lower U s = lower_from U [] s"

definition endswith :: "str \<Rightarrow> str \<Rightarrow> bool" where
  "endswith s ext = (length ext \<le> length s \<and> drop (length s - length ext) s = ext)"

definition mime_from_filename :: "ucd \<Rightarrow> str option \<Rightarrow> (str \<times> str) list \<Rightarrow> str \<Rightarrow> str" where
  "mime_from_filename U filename ext_map dflt =
     (case filename of
        None \<Rightarrow> dflt
      | Some name \<Rightarrow>
          (if name = [] then dflt
           else (case find (\<lambda>(ext, mime). endswith (lower U name) ext) ext_map of
                   None \<Rightarrow> dflt
                 | Some (ext, mime) \<Rightarrow> mime)))"

text \<open>\<open>_resolve_audio\<close> and \<open>_resolve_image\<close>, which differ in the table and the default.\<close>

definition resolve_file ::
  "ucd \<Rightarrow> (str \<times> str) list \<Rightarrow> str \<Rightarrow> file_storage option \<Rightarrow> nat list option \<Rightarrow> str
     \<Rightarrow> nat list option \<times> str" where
  "resolve_file U ext_map dflt file bytes mime =
     (case file of
        Some f \<Rightarrow>
          (Some (f_data f),
           (case f_content_type f of
              Some ct \<Rightarrow> if ct \<noteq> [] then ct else mime_from_filename U (f_filename f) ext_map dflt
            | None \<Rightarrow> mime_from_filename U (f_filename f) ext_map dflt))
      | None \<Rightarrow> (bytes, mime))"

text \<open>Step 3 of \<open>process_input\<close>: the input mode, from which inputs are present.\<close>

definition input_mode_of :: "bool \<Rightarrow> bool \<Rightarrow> bool \<Rightarrow> InputMode" where
  "input_mode_of has_text has_audio has_image =
     (if has_text \<and> has_audio \<and> has_image then ALL_INPUTS
      else if has_text \<and> has_image then TEXT_IMAGE
      else if has_text \<and> has_audio then TEXT_VOICE
      else if has_audio \<and> has_image then VOICE_IMAGE
      else if has_audio then VOICE
      else if has_image then IMAGE
      else TEXT)"

definition generate_system_instruction :: "env \<Rightarrow> nat \<Rightarrow> MascotMemory \<Rightarrow> str" where
  "generate_system_instruction E now memory =
     render_instruction E (mm_persona_preferences memory)
       (if mm_summary_memory memory \<noteq> [] then mm_summary_memory memory
        else memory_empty_note E (name_used (mm_persona_preferences memory)))
       now"

text \<open>
  Step 5, the earlier turns. Iterating a value that is not a list, or calling \<open>get\<close> on an
  item that is not a dictionary, raises.
\<close>

fun history_turns :: "json list \<Rightarrow> error + content list" where
  "history_turns [] = Inr []"
| "history_turns (msg # msgs) =
     (case msg of
        JDict d \<Rightarrow>
          (case history_turns msgs of
             Inl e \<Rightarrow> Inl e
           | Inr cs \<Rightarrow>
               Inr (Content (if dict_get d (py ''role'') = Some (JStr (py ''user''))
                             then py ''user'' else py ''model'')
                      [Part_from_text (get_or d (py ''text'') (JStr []))] # cs))
      | _ \<Rightarrow> Inl AttributeError)"

definition history_contents :: "json option \<Rightarrow> error + content list" where
  "history_contents conversation_history =
     (case conversation_history of
        None \<Rightarrow> Inr []
      | Some h \<Rightarrow>
          (if \<not> truthy h then Inr []
           else (case h of
                   JList msgs \<Rightarrow> history_turns msgs
                 | JDict d \<Rightarrow> Inl AttributeError
                 | JStr s \<Rightarrow> Inl AttributeError
                 | _ \<Rightarrow> Inl TypeError)))"

definition voice_caption :: str where
  "voice_caption = py ''(The user just sent a voice message '' @ [0x2014]
                   @ py '' listen to it and respond.)''"

definition photo_caption :: str where
  "photo_caption = py ''(The user just sent a photo '' @ [0x2014]
                   @ py '' describe what you see and log it.)''"

definition nudge :: str where
  "nudge = py ''Please log everything we'' @ [0x27] @ py ''ve discussed so far.''"

text \<open>Step 5, the parts of the current message.\<close>

definition current_parts ::
  "str option \<Rightarrow> nat list option \<Rightarrow> str \<Rightarrow> nat list option \<Rightarrow> str \<Rightarrow> bool \<Rightarrow> part list" where
  "current_parts text audio_bytes audio_mime image_bytes image_mime force_log =
     (let parts =
            (case audio_bytes of
               Some b \<Rightarrow> if b \<noteq> [] then [Part_from_bytes b audio_mime,
                                            Part_from_text (JStr voice_caption)] else []
             | None \<Rightarrow> [])
          @ (case image_bytes of
               Some b \<Rightarrow> if b \<noteq> [] then [Part_from_bytes b image_mime,
                                            Part_from_text (JStr photo_caption)] else []
             | None \<Rightarrow> [])
          @ (case text of
               Some t \<Rightarrow> if t \<noteq> [] then [Part_from_text (JStr t)] else []
             | None \<Rightarrow> [])
      in if force_log \<and> parts = [] then [Part_from_text (JStr nudge)] else parts)"

text \<open>Step 7: the two failures of the oracle's answer, and the parsed dictionary.\<close>

definition empty_response_message :: str where
  "empty_response_message = py ''Gemini returned an empty response.''"

definition invalid_json_prefix :: str where
  "invalid_json_prefix = py ''Gemini returned invalid JSON: ''"

text \<open>
  \<open>json_loads\<close> gives \<open>None\<close> for text that does not parse, \<open>Some None\<close> for text that
  parses to a value that is not an object, on which step 8's item assignment raises
  \<open>TypeError\<close>, and \<open>Some (Some d)\<close> for an object.
\<close>

definition parse_response :: "env \<Rightarrow> str option \<Rightarrow> error + dict" where
  "parse_response E raw_text =
     (case raw_text of
        None \<Rightarrow> Inl (RuntimeError empty_response_message)
      | Some raw \<Rightarrow>
          (if raw = [] then Inl (RuntimeError empty_response_message)
           else (case json_loads E raw of
                   None \<Rightarrow> Inl (RuntimeError (invalid_json_prefix @ take 200 raw))
                 | Some None \<Rightarrow> Inl TypeError
                 | Some (Some result) \<Rightarrow> Inr result)))"

definition memory_context :: "MascotMemory \<Rightarrow> json" where
  "memory_context memory =
     JDict [(py ''mascot_name'', JStr (mascot_name (mm_persona_preferences memory))),
            (py ''name_used'', JStr (name_used (mm_persona_preferences memory))),
            (py ''tone'', JStr (tone (mm_persona_preferences memory))),
            (py ''summary_length'', JInt (int (length (mm_summary_memory memory)))),
            (py ''is_first_interaction'', JBool (mm_summary_memory memory = []))]"

text \<open>\<open>str(v)\<close> inside an f-string; \<open>"; ".join(v)\<close>.\<close>

definition py_str :: "env \<Rightarrow> json \<Rightarrow> str" where
  "py_str E v = (case v of JStr s \<Rightarrow> s | _ \<Rightarrow> py_repr E v)"

fun join_strs :: "str \<Rightarrow> json list \<Rightarrow> error + str" where
  "join_strs sep [] = Inr []"
| "join_strs sep [x] = (case x of JStr s \<Rightarrow> Inr s | _ \<Rightarrow> Inl TypeError)"
| "join_strs sep (x # y # ys) =
     (case x of
        JStr s \<Rightarrow> (case join_strs sep (y # ys) of Inl e \<Rightarrow> Inl e | Inr r \<Rightarrow> Inr (s @ sep @ r))
      | _ \<Rightarrow> Inl TypeError)"

definition join :: "str \<Rightarrow> json \<Rightarrow> error + str" where
  "join sep v =
     (case v of
        JList xs \<Rightarrow> join_strs sep xs
      | JStr s \<Rightarrow> join_strs sep (map (\<lambda>c. JStr [c]) s)
      | JDict d \<Rightarrow> join_strs sep (map (\<lambda>(k, x). JStr k) d)
      | _ \<Rightarrow> Inl TypeError)"

definition summary_line :: "env \<Rightarrow> dict \<Rightarrow> dict \<Rightarrow> str \<Rightarrow> str" where
  "summary_line E result entry notes_str =
     (let line = py_str E (get_or result (py ''condition_name'') JNull) @ py '': pain ''
                 @ py_str E (get_or entry (py ''pain_level'') (JStr (py ''?''))) @ py ''/10, location ''
                 @ py_str E (get_or entry (py ''location'') (JList [])) @ py '', ''
                 @ py_str E (get_or entry (py ''details'') (JStr [])) @ py '' (''
                 @ py_str E (get_or entry (py ''timestamp'') (JStr (py ''unknown time''))) @ py '')''
      in if notes_str \<noteq> [] then line @ py '' [notes: '' @ notes_str @ py '']'' else line)"

text \<open>\<open>ConditionLogService.create_from_gemini_result\<close>, with \<open>ConditionLog.__init__\<close> and \<open>to_dict\<close>.\<close>

definition or_empty_list :: "json \<Rightarrow> json" where
  "or_empty_list v = (if truthy v then v else JList [])"

definition create_from_gemini_result ::
  "nat \<Rightarrow> store \<Rightarrow> str \<Rightarrow> dict \<Rightarrow> InputMode \<Rightarrow> nat option \<Rightarrow> (error + nat) \<times> store" where
  "create_from_gemini_result now st user_id result input_mode condition_id =
     (case get_or result (py ''extracted_data'') (JDict []) of
        JDict extracted \<Rightarrow>
          (case ObjectId user_id of
             Inl e \<Rightarrow> (Inl e, st)
           | Inr ou \<Rightarrow>
               (Inr (st_logs_next st),
                st\<lparr>st_logs := st_logs st @
                     [\<lparr>l_id = st_logs_next st, l_user_id = ou,
                       l_condition_name = get_or result (py ''condition_name'') (JStr []),
                       l_pain_level = get_or extracted (py ''pain_level'') (JInt 0),
                       l_location = or_empty_list (get_or extracted (py ''location'') (JList [])),
                       l_details = get_or extracted (py ''details'') (JStr []),
                       l_symptom_timestamp = get_or extracted (py ''timestamp'') (JStr []),
                       l_input_mode = input_mode,
                       l_mascot_response = get_or result (py ''mascot_response'') (JStr []),
                       l_mascot_notes =
                         or_empty_list (get_or extracted (py ''mascot_notes'') (JList [])),
                       l_condition_id = condition_id, l_created_at = now\<rparr>],
                   st_logs_next := Suc (st_logs_next st)\<rparr>))
      | _ \<Rightarrow> (Inl AttributeError, st))"

text \<open>
  Step 9, taken when the action is \<open>update_condition\<close> and the condition name is truthy:
  the card, then the summary line, then the log.
\<close>

definition upsert_and_log ::
  "env \<Rightarrow> nat \<Rightarrow> store \<Rightarrow> str \<Rightarrow> InputMode \<Rightarrow> dict \<Rightarrow> (error + dict) \<times> store" where
  "upsert_and_log E now st user_id input_mode result =
     (case dict_get result (py ''extracted_data'') of
        None \<Rightarrow> (Inl (KeyError (py ''extracted_data'')), st)
      | Some entry \<Rightarrow>
          (case get_or result (py ''condition_name'') JNull of
             JStr name \<Rightarrow>
               (case storage_call E UpsertCard st
                       (case find_or_create (unicode E) now (st_conditions st) user_id name of
                          (r, coll) \<Rightarrow> (r, st\<lparr>st_conditions := coll\<rparr>)) of
                  (Inl e, st1) \<Rightarrow> (Inl e, st1)
                | (Inr (crd, is_new), st1) \<Rightarrow>
                    (let result1 = dict_set (py ''is_new_condition'') (JBool is_new)
                                     (dict_set (py ''condition_id'')
                                        (case hc_id crd of None \<Rightarrow> JNull | Some i \<Rightarrow> JStr (id_str i)) result)
                     in case entry of
                          JDict e \<Rightarrow>
                            (case join (py ''; '') (get_or e (py ''mascot_notes'') (JList [])) of
                               Inl err \<Rightarrow> (Inl err, st1)
                             | Inr notes_str \<Rightarrow>
                                 (case storage_call E AppendSummary st1
                                         (append_to_summary now st1 user_id
                                            (summary_line E result1 e notes_str)) of
                                    (Inl err, st2) \<Rightarrow> (Inl err, st2)
                                  | (Inr m, st2) \<Rightarrow>
                                      (case storage_call E InsertLog st2
                                              (create_from_gemini_result now st2 user_id
                                                 result1 input_mode (hc_id crd)) of
                                         (Inl err, st3) \<Rightarrow> (Inl err, st3)
                                       | (Inr log_id, st3) \<Rightarrow>
                                           (Inr (dict_set (py ''log_id'') (JStr (id_str log_id)) result1),
                                            st3))))
                        | _ \<Rightarrow> (Inl AttributeError, st1)))
           | _ \<Rightarrow> (Inl AttributeError, st)))"

definition no_input_message :: str where
  "no_input_message = py ''At least one input (text, audio, or image) is required.''"

definition has_text :: "str option \<Rightarrow> bool" where
  "has_text text = (case text of None \<Rightarrow> False | Some t \<Rightarrow> t \<noteq> [])"

definition process_input :: "env \<Rightarrow> nat \<Rightarrow> store \<Rightarrow> arguments \<Rightarrow> (error + dict) \<times> store" where
  "process_input E now st a =
     (case resolve_file (unicode E) AUDIO_EXT_MAP (py ''audio/webm'') (a_audio_file a)
             (a_audio_bytes a) (a_audio_mime a) of
        (audio_bytes, audio_mime) \<Rightarrow>
     (case resolve_file (unicode E) IMAGE_EXT_MAP (py ''image/jpeg'') (a_image_file a)
             (a_image_bytes a) (a_image_mime a) of
        (image_bytes, image_mime) \<Rightarrow>
     if \<not> has_text (a_text a) \<and> audio_bytes = None \<and> image_bytes = None
     then (Inl (ValueError no_input_message), st)
     else
     (case storage_call E LoadMemory st (get_or_create_memory now st (a_user_id a)) of
        (Inl e, st1) \<Rightarrow> (Inl e, st1)
      | (Inr memory, st1) \<Rightarrow>
     (let input_mode = input_mode_of (has_text (a_text a)) (audio_bytes \<noteq> None)
                         (image_bytes \<noteq> None);
          system_instruction =
            generate_system_instruction E now memory
            @ (if a_force_log a then force_log_instruction E else [])
      in
     (case history_contents (a_conversation_history a) of
        Inl e \<Rightarrow> (Inl e, st1)
      | Inr turns \<Rightarrow>
     (let parts = current_parts (a_text a) audio_bytes audio_mime image_bytes image_mime
                    (a_force_log a);
          contents = turns @ (if parts \<noteq> [] then [Content (py ''user'') parts] else [])
      in
     (case generate_content E system_instruction contents of
        Inl e \<Rightarrow> (Inl e, st1)
      | Inr raw_text \<Rightarrow>
     (case parse_response E raw_text of
        Inl e \<Rightarrow> (Inl e, st1)
      | Inr parsed \<Rightarrow>
     (let result = dict_set (py ''memory_context'') (memory_context memory) parsed
      in if dict_get result (py ''action'') = Some (JStr (py ''update_condition''))
            \<and> truthy (get_or result (py ''condition_name'') JNull)
         then upsert_and_log E now st1 (a_user_id a) input_mode result
         else (Inr result, st1))))))))))"

subsection \<open>The caller\<close>

text \<open>
  The \<open>except\<close> clauses of the controller around its call of \<open>process_input\<close>: the
  status and the error text of the response. \<open>ValueError\<close> and \<open>RuntimeError\<close> are caught
  by class, everything else by the last clause.
\<close>

definition generic_error_message :: str where
  "generic_error_message = py ''Something went wrong processing your input. Please try again.''"

definition error_response :: "error \<Rightarrow> nat \<times> str" where
  "error_response e =
     (case e of
        ValueError m \<Rightarrow> (400, m)
      | RuntimeError m \<Rightarrow> (502, m)
      | _ \<Rightarrow> (500, generic_error_message))"

text \<open>
  The controller's own validation, made before it calls \<open>process_input\<close>: it answers 400
  without calling when there is no text, no audio file, no image file and no \<open>force_log\<close>.
\<close>

definition controller_rejects :: "arguments \<Rightarrow> bool" where
  "controller_rejects a \<longleftrightarrow>
     \<not> has_text (a_text a) \<and> a_audio_file a = None \<and> a_image_file a = None \<and> \<not> a_force_log a"

subsection \<open>Example runs\<close>

text \<open>
  An environment for the examples: the oracle answers \<open>raw\<close> to every request,
  \<open>json.loads\<close> gives \<open>parsed\<close>, which in each example is the value of the text \<open>raw\<close>,
  and the storage is in reach; the templates are empty.
\<close>

definition oracle_env :: "str option \<Rightarrow> dict option option \<Rightarrow> env" where
  "oracle_env raw parsed =
     \<lparr>unicode = ucd_excerpt, json_loads = (\<lambda>s. parsed),
      generate_content = (\<lambda>instruction contents. Inr raw),
      render_instruction = (\<lambda>prefs memory now. []), memory_empty_note = (\<lambda>name. []),
      force_log_instruction = [], py_repr = (\<lambda>v. []), storage_fails = (\<lambda>request. False)\<rparr>"

text \<open>\<open>process_input(user_id, text)\<close>, every other parameter at its default.\<close>

definition text_only :: "str \<Rightarrow> str \<Rightarrow> arguments" where
  "text_only user_id text =
     \<lparr>a_user_id = user_id, a_text = Some text, a_audio_file = None, a_image_file = None,
      a_force_log = False, a_conversation_history = None, a_audio_bytes = None,
      a_audio_mime = py ''audio/webm'', a_image_bytes = None, a_image_mime = py ''image/jpeg''\<rparr>"

text \<open>\<open>process_input(user_id, force_log=True)\<close>: no text, no audio, no image.\<close>

definition force_log_only :: "str \<Rightarrow> arguments" where
  "force_log_only user_id =
     \<lparr>a_user_id = user_id, a_text = None, a_audio_file = None, a_image_file = None,
      a_force_log = True, a_conversation_history = None, a_audio_bytes = None,
      a_audio_mime = py ''audio/webm'', a_image_bytes = None, a_image_mime = py ''image/jpeg''\<rparr>"

text \<open>An answer of the oracle with the action \<open>update_condition\<close> and an empty condition name.\<close>

definition nameless_update_text :: str where
  \<open>nameless_update_text =
     py ''{"action": "update_condition", "condition_name": "", "extracted_data": {}, ''
     @ py ''"mascot_response": "Tell me more."}''\<close>


text \<open>An answer of the oracle that reports a condition.\<close>

definition flu_update_text :: str where
  \<open>flu_update_text =
     py ''{"action": "update_condition", "condition_name": "flu", "extracted_data": ''
     @ py ''{"pain_level": 4, "location": ["head"], "details": "aching", ''
     @ py ''"timestamp": "today", "mascot_notes": []}, "mascot_response": "Logged."}''\<close>

definition flu_update :: dict where
  "flu_update =
     [(py ''action'', JStr (py ''update_condition'')), (py ''condition_name'', JStr (py ''flu'')),
      (py ''extracted_data'',
       JDict [(py ''pain_level'', JInt 4), (py ''location'', JList [JStr (py ''head'')]),
              (py ''details'', JStr (py ''aching'')), (py ''timestamp'', JStr (py ''today'')),
              (py ''mascot_notes'', JList [])]),
      (py ''mascot_response'', JStr (py ''Logged.''))]"

text \<open>\<open>process_input(user_id, text, image_file=photo)\<close>, the photo an uploaded PNG file.\<close>

definition text_and_photo :: "str \<Rightarrow> str \<Rightarrow> arguments" where
  "text_and_photo user_id text =
     (text_only user_id text)
       \<lparr>a_image_file := Some \<lparr>f_data = [137, 80, 78, 71], f_content_type = None,
                                f_filename = Some (py ''rash.PNG'')\<rparr>\<rparr>"

text \<open>The environment of the examples with the storage out of reach for the log's insert.\<close>

definition log_insert_fails :: "env \<Rightarrow> env" where
  "log_insert_fails E = E\<lparr>storage_fails := (\<lambda>request. request = InsertLog)\<rparr>"

section \<open>Normalisation: lemmas\<close>


lemma do_title_ascii:
  assumes "ascii_rows U"
  shows "\<forall>c\<in>set s. c < 128 \<Longrightarrow> do_title U b s p = ascii_title s p"
proof (induction s arbitrary: b p)
  case Nil
  show ?case by simp
next
  case (Cons c cs)
  have c: "c < 128" using Cons.prems by simp
  have rows: "is_cased U c = ascii_letter c" "to_title_full U c = [ascii_upper c]"
    "to_lower_full U c = [ascii_lower c]"
    using assms c by (simp_all add: ascii_rows_def)
  have low: "lower_ucs4 U b c cs = [ascii_lower c]"
    using c rows by (simp add: lower_ucs4_def)
  have "do_title U (b @ [c]) cs (ascii_letter c) = ascii_title cs (ascii_letter c)"
    using Cons.IH Cons.prems by simp
  then show ?case using rows low by simp
qed

lemma ascii_letter_upper [simp]: "ascii_letter (ascii_upper c) = ascii_letter c"
  by (auto simp: ascii_letter_def ascii_upper_def)

lemma ascii_letter_lower [simp]: "ascii_letter (ascii_lower c) = ascii_letter c"
  by (auto simp: ascii_letter_def ascii_lower_def)

lemma ascii_upper_upper [simp]: "ascii_upper (ascii_upper c) = ascii_upper c"
  by (auto simp: ascii_upper_def)

lemma ascii_lower_lower [simp]: "ascii_lower (ascii_lower c) = ascii_lower c"
  by (auto simp: ascii_lower_def)

lemma ascii_space_upper [simp]: "ascii_space (ascii_upper c) = ascii_space c"
  by (auto simp: ascii_space_def ascii_upper_def)

lemma ascii_space_lower [simp]: "ascii_space (ascii_lower c) = ascii_space c"
  by (auto simp: ascii_space_def ascii_lower_def)

lemma ascii_title_idem: "ascii_title (ascii_title s p) p = ascii_title s p"
  by (induction s arbitrary: p) auto

lemma ascii_title_bound: "\<forall>c\<in>set s. c < 128 \<Longrightarrow> \<forall>c\<in>set (ascii_title s p). c < 128"
  by (induction s arbitrary: p) (auto simp: ascii_upper_def ascii_lower_def)

lemma ascii_title_space: "map ascii_space (ascii_title s p) = map ascii_space s"
  by (induction s arbitrary: p) auto

lemma ascii_title_Nil [simp]: "ascii_title s p = [] \<longleftrightarrow> s = []"
  by (cases s) auto

lemma strip_by_cong: "(\<forall>c\<in>set s. P c = Q c) \<Longrightarrow> strip_by P s = strip_by Q s"
proof -
  assume a: "\<forall>c\<in>set s. P c = Q c"
  have 1: "dropWhile P s = dropWhile Q s"
    using a by (intro dropWhile_cong) auto
  have "\<forall>c\<in>set (rev (dropWhile Q s)). P c = Q c"
    using a by (auto dest: set_dropWhileD)
  then have "dropWhile P (rev (dropWhile Q s)) = dropWhile Q (rev (dropWhile Q s))"
    by (intro dropWhile_cong) auto
  with 1 show ?thesis by (simp add: strip_by_def)
qed

lemma strip_by_subset: "set (strip_by P s) \<subseteq> set s"
  by (auto simp: strip_by_def dest!: set_dropWhileD)

text \<open>A stripped string is empty, or begins and ends with a code point that is kept.\<close>

definition trimmed :: "(nat \<Rightarrow> bool) \<Rightarrow> str \<Rightarrow> bool" where
  "trimmed P s = (s = [] \<or> (\<not> P (hd s) \<and> \<not> P (last s)))"

lemma strip_by_trimmed: "trimmed P (strip_by P s)"
proof -
  define u where "u = dropWhile P s"
  define w where "w = dropWhile P (rev u)"
  have t: "strip_by P s = rev w" by (simp add: strip_by_def u_def w_def)
  show ?thesis
  proof (cases "w = []")
    case True
    then show ?thesis by (simp add: t trimmed_def)
  next
    case False
    have hw: "\<not> P (hd w)" using False unfolding w_def by (rule hd_dropWhile)
    have "rev u = takeWhile P (rev u) @ w" by (simp add: w_def)
    then have "last (rev u) = last w" using False by (metis last_appendR)
    moreover have "u \<noteq> []" using False by (auto simp: w_def)
    ultimately have lw: "last w = hd u" by (simp add: last_rev)
    have "\<not> P (hd u)" using \<open>u \<noteq> []\<close> unfolding u_def by (rule hd_dropWhile)
    then show ?thesis using False hw lw by (simp add: t trimmed_def hd_rev last_rev)
  qed
qed

lemma strip_by_id: "trimmed P s \<Longrightarrow> strip_by P s = s"
proof (cases "s = []")
  case True
  then show ?thesis by (simp add: strip_by_def)
next
  case False
  assume "trimmed P s"
  then have h: "\<not> P (hd s)" and l: "\<not> P (last s)" using False by (simp_all add: trimmed_def)
  have 1: "dropWhile P s = s" using False h by (cases s) auto
  have "dropWhile P (rev s) = rev s" using False l by (cases "rev s") (auto simp: hd_rev)
  with 1 show ?thesis by (simp add: strip_by_def)
qed

lemma trimmed_ascii_title:
  assumes "trimmed ascii_space s"
  shows "trimmed ascii_space (ascii_title s p)"
proof (cases "s = []")
  case True
  then show ?thesis by (simp add: trimmed_def)
next
  case False
  let ?t = "ascii_title s p"
  have m: "map ascii_space ?t = map ascii_space s" by (rule ascii_title_space)
  have ne: "?t \<noteq> []" using False by simp
  have "ascii_space (hd ?t) = hd (map ascii_space ?t)" using ne by (simp add: hd_map)
  also have "\<dots> = ascii_space (hd s)" using False m by (simp add: hd_map)
  finally have h: "ascii_space (hd ?t) = ascii_space (hd s)" .
  have "ascii_space (last ?t) = last (map ascii_space ?t)" using ne by (simp add: last_map)
  also have "\<dots> = ascii_space (last s)" using False m by (simp add: last_map)
  finally have l: "ascii_space (last ?t) = ascii_space (last s)" .
  show ?thesis using assms False ne h l by (simp add: trimmed_def)
qed

lemma normalise_ascii:
  assumes "ascii_rows U" and "\<forall>c\<in>set s. c < 128"
  shows "normalise U s = ascii_title (strip_by ascii_space s) False"
proof -
  have "\<forall>c\<in>set s. is_space U c = ascii_space c"
    using assms by (simp add: ascii_rows_def)
  then have 1: "strip U s = strip_by ascii_space s"
    unfolding strip_def by (rule strip_by_cong)
  have "\<forall>c\<in>set (strip_by ascii_space s). c < 128"
    using assms(2) strip_by_subset [of ascii_space s] by auto
  then show ?thesis
    using assms(1) by (simp add: normalise_def title_def 1 do_title_ascii)
qed

lemma normalise_ascii_idem:
  assumes "ascii_rows U" and "\<forall>c\<in>set s. c < 128"
  shows "normalise U (normalise U s) = normalise U s"
proof -
  let ?t = "strip_by ascii_space s"
  let ?y = "ascii_title ?t False"
  have y: "normalise U s = ?y" using assms by (rule normalise_ascii)
  have "\<forall>c\<in>set ?t. c < 128"
    using assms(2) strip_by_subset [of ascii_space s] by auto
  then have yb: "\<forall>c\<in>set ?y. c < 128" by (rule ascii_title_bound)
  have "trimmed ascii_space ?y"
    by (rule trimmed_ascii_title) (rule strip_by_trimmed)
  then have "strip_by ascii_space ?y = ?y" by (rule strip_by_id)
  then have "normalise U ?y = ascii_title ?y False"
    using normalise_ascii [OF assms(1) yb] by simp
  then show ?thesis by (simp add: y ascii_title_idem)
qed

lemma py_bound: "\<forall>c\<in>set (py s). c < 256"
  by (auto simp: py_def)






section \<open>The collection: lemmas\<close>

lemma update_first_map:
  "(\<And>x. k (f x) = k x) \<Longrightarrow> map k (update_first P f xs) = map k xs"
  by (induction xs) auto

lemma update_first_length [simp]: "length (update_first P f xs) = length xs"
  by (induction xs) auto

lemma find_update_first:
  assumes "distinct (map i xs)" and "find P xs = Some x"
    and "\<And>y. P (f y) = P y"
  shows "find P (update_first (\<lambda>d. i d = i x) f xs) = Some (f x)"
  using assms(1,2)
proof (induction xs)
  case Nil
  then show ?case by simp
next
  case (Cons y ys)
  show ?case
  proof (cases "P y")
    case True
    then have "x = y" using Cons.prems by simp
    then show ?thesis using True assms(3) by simp
  next
    case False
    then have fx: "find P ys = Some x" using Cons.prems by simp
    then have "x \<in> set ys" by (auto simp: find_Some_iff)
    then have "i y \<noteq> i x" using Cons.prems(1) by auto
    then show ?thesis using False fx Cons.IH Cons.prems(1) assms(3) by simp
  qed
qed

lemma set_fields_keeps [simp]:
  "d_id (set_fields c d) = d_id d"
  "d_user_id (set_fields c d) = d_user_id d"
  "d_condition_name (set_fields c d) = d_condition_name d"
  "d_status (set_fields c d) = hc_status c"
  "d_log_count (set_fields c d) = hc_log_count c"
  by (simp_all add: set_fields_def)

lemma same_key_set_fields [simp]: "same_key u n (set_fields c d) = same_key u n d"
  by (simp add: same_key_def)

lemma update_one_keys:
  "map (\<lambda>d. (d_user_id d, d_condition_name d)) (docs (update_one coll i c))
     = map (\<lambda>d. (d_user_id d, d_condition_name d)) (docs coll)"
  by (simp add: update_one_def update_first_map)

lemma update_one_ids: "map d_id (docs (update_one coll i c)) = map d_id (docs coll)"
  by (simp add: update_one_def update_first_map)

lemma update_one_next_id [simp]: "next_id (update_one coll i c) = next_id coll"
  by (simp add: update_one_def)

lemma update_first_list_all:
  "(\<And>x. P (f x) = P x) \<Longrightarrow> list_all P (update_first Q f xs) = list_all P xs"
  by (induction xs) auto

lemma ids_ok_update_one: "ids_ok coll \<Longrightarrow> ids_ok (update_one coll i c)"
  using update_one_ids [of coll i c]
  by (simp add: ids_ok_def) (simp add: update_one_def update_first_list_all)

lemma unique_index_update_one: "unique_index (update_one coll i c) = unique_index coll"
  by (simp add: unique_index_def update_one_keys)

lemma count_cards_update_one [simp]:
  "count_cards (update_one coll i c) u n = count_cards coll u n"
proof -
  have "map (same_key u n) (docs (update_one coll i c)) = map (same_key u n) (docs coll)"
    by (simp add: update_one_def update_first_map)
  then have "length (filter (\<lambda>b. b) (map (same_key u n) (docs (update_one coll i c))))
      = length (filter (\<lambda>b. b) (map (same_key u n) (docs coll)))" by simp
  then show ?thesis by (simp add: count_cards_def filter_map o_def)
qed

lemma find_one_update_one:
  assumes "ids_ok coll" and "find_one coll u n = Some d"
  shows "find_one (update_one coll (Some (d_id d)) c) u n = Some (set_fields c d)"
proof -
  have "distinct (map d_id (docs coll))" using assms(1) by (simp add: ids_ok_def)
  then have "find (same_key u n) (update_first (\<lambda>x. d_id x = d_id d) (set_fields c) (docs coll))
      = Some (set_fields c d)"
    using assms(2) by (intro find_update_first) (simp_all add: find_one_def)
  then show ?thesis by (simp add: find_one_def update_one_def)
qed


lemma find_one_None_count: "find_one coll u n = None \<longleftrightarrow> count_cards coll u n = 0"
  by (auto simp: find_one_def find_None_iff count_cards_def filter_empty_conv)

section \<open>find_or_create: lemmas\<close>

lemma from_dict_fields [simp]:
  "hc_id (from_dict U now d) = Some (d_id d)"
  "hc_status (from_dict U now d) = d_status d"
  "hc_log_count (from_dict U now d) = d_log_count d"
  by (simp_all add: from_dict_def HealthCondition_init_def)

lemma record_new_log_fields [simp]:
  "hc_id (record_new_log now c) = hc_id c"
  "hc_status (record_new_log now c) = hc_status c"
  "hc_log_count (record_new_log now c) = hc_log_count c + 1"
  by (simp_all add: record_new_log_def touch_def)

lemma reactivate_fields [simp]:
  "hc_id (reactivate now c) = hc_id c"
  "hc_status (reactivate now c) = ACTIVE"
  "hc_log_count (reactivate now c) = hc_log_count c"
  by (simp_all add: reactivate_def touch_def)

text \<open>The call that finds a card.\<close>

lemma foc_found:
  assumes "ObjectId u = Inr ou" and "find_one coll ou (normalise U n) = Some d"
  shows "\<exists>c. find_or_create U now coll u n = (Inr (c, False), update_one coll (Some (d_id d)) c)
           \<and> hc_status c = ACTIVE \<and> hc_log_count c = d_log_count d + 1
           \<and> hc_id c = Some (d_id d)"
proof -
  define c0 where "c0 = record_new_log now (from_dict U now d)"
  define c where "c = (if hc_status c0 = RESOLVED then reactivate now c0 else c0)"
  have st: "hc_status c = ACTIVE"
    by (cases "d_status d") (simp_all add: c_def c0_def)
  have lc: "hc_log_count c = d_log_count d + 1" by (simp add: c_def c0_def)
  have ic: "hc_id c = Some (d_id d)" by (simp add: c_def c0_def)
  have "find_or_create U now coll u n = (Inr (c, False), update_one coll (hc_id c) c)"
    using assms by (simp add: find_or_create_def Let_def c_def c0_def)
  then show ?thesis using st lc ic by auto
qed

text \<open>The call that finds none: it inserts, or the insert is refused.\<close>

lemma foc_missing:
  assumes "ObjectId u = Inr ou" and "find_one coll ou (normalise U n) = None"
  shows "find_or_create U now coll u n =
     (let crd = HealthCondition_init U now u (normalise U n) ACTIVE 1 (Some now) (Some now)
                  None None None
      in if list_ex (same_key ou (normalise U (normalise U n))) (docs coll)
         then (Inl DuplicateKeyError, coll)
         else (Inr (crd\<lparr>hc_id := Some (next_id coll)\<rparr>, True),
               coll\<lparr>docs := docs coll @
                  [\<lparr>d_id = next_id coll, d_user_id = ou,
                    d_condition_name = normalise U (normalise U n), d_status = ACTIVE,
                    d_log_count = 1, d_first_reported = now, d_last_reported = now,
                    d_created_at = now, d_updated_at = now\<rparr>],
                  next_id := Suc (next_id coll)\<rparr>))"
  using assms
  by (simp add: find_or_create_def Let_def to_dict_def insert_one_def HealthCondition_init_def)


lemma ids_ok_insert:
  assumes "ids_ok coll"
  shows "ids_ok (coll\<lparr>docs := docs coll @ [d\<lparr>d_id := next_id coll\<rparr>], next_id := Suc (next_id coll)\<rparr>)"
proof -
  have a: "distinct (map d_id (docs coll))" and b: "\<forall>x\<in>set (docs coll). d_id x < next_id coll"
    using assms by (simp_all add: ids_ok_def list_all_iff)
  from b have "next_id coll \<notin> d_id ` set (docs coll)" by auto
  moreover from b have "\<forall>x\<in>set (docs coll). d_id x < Suc (next_id coll)" by auto
  ultimately show ?thesis using a by (simp add: ids_ok_def list_all_iff)
qed

lemma find_snoc:
  "find P (xs @ [x]) = (case find P xs of Some y \<Rightarrow> Some y | None \<Rightarrow> if P x then Some x else None)"
  by (induction xs) auto

lemma calls_length: "calls U coll u n nows = (rs, coll') \<Longrightarrow> length rs = length nows"
  by (induction nows arbitrary: coll rs) (auto split: prod.splits)

text \<open>Calls that start with the card in place: each one finds it and adds one.\<close>

lemma calls_found:
  assumes "ObjectId u = Inr ou"
  shows "ids_ok coll \<Longrightarrow> find_one coll ou (normalise U n) = Some d \<Longrightarrow>
         calls U coll u n nows = (rs, coll') \<Longrightarrow>
         (\<forall>i < length nows. \<exists>c. rs ! i = Inr (c, False) \<and> hc_log_count c = d_log_count d + int i + 1)
         \<and> (\<exists>d'. find_one coll' ou (normalise U n) = Some d'
                 \<and> d_log_count d' = d_log_count d + int (length nows))"
proof (induction nows arbitrary: coll d rs)
  case Nil
  then show ?case by simp
next
  case (Cons t ts)
  obtain c where c: "find_or_create U t coll u n = (Inr (c, False), update_one coll (Some (d_id d)) c)"
    "hc_log_count c = d_log_count d + 1"
    using foc_found [OF assms Cons.prems(2)] by blast
  let ?coll1 = "update_one coll (Some (d_id d)) c"
  obtain rs' where rs': "calls U ?coll1 u n ts = (rs', coll')" and rs: "rs = Inr (c, False) # rs'"
    using Cons.prems(3) c(1) by (auto split: prod.splits)
  have ok1: "ids_ok ?coll1" using Cons.prems(1) by (rule ids_ok_update_one)
  have f1: "find_one ?coll1 ou (normalise U n) = Some (set_fields c d)"
    using Cons.prems(1,2) by (rule find_one_update_one)
  have ih: "(\<forall>i < length ts. \<exists>c'. rs' ! i = Inr (c', False)
               \<and> hc_log_count c' = d_log_count (set_fields c d) + int i + 1)
         \<and> (\<exists>d'. find_one coll' ou (normalise U n) = Some d'
                 \<and> d_log_count d' = d_log_count (set_fields c d) + int (length ts))"
    using Cons.IH [OF ok1 f1 rs'] .
  have "\<exists>c'. rs ! i = Inr (c', False) \<and> hc_log_count c' = d_log_count d + int i + 1"
    if "i < length (t # ts)" for i
  proof (cases i)
    case 0
    then show ?thesis using rs c(2) by simp
  next
    case (Suc j)
    then have "j < length ts" using that by simp
    then obtain c' where "rs' ! j = Inr (c', False)"
      "hc_log_count c' = d_log_count (set_fields c d) + int j + 1" using ih by blast
    then show ?thesis using Suc rs c(2) by simp
  qed
  moreover have "\<exists>d'. find_one coll' ou (normalise U n) = Some d'
                 \<and> d_log_count d' = d_log_count d + int (length (t # ts))"
    using ih c(2) by auto
  ultimately show ?case by blast
qed

text \<open>The first call, on a collection without the card.\<close>

lemma foc_first:
  assumes "ObjectId u = Inr ou" and "ids_ok coll"
    and "find_one coll ou (normalise U n) = None"
    and "find_or_create U now coll u n = (r, coll1)" and "succeeded r"
  shows "\<exists>c d. r = Inr (c, True) \<and> hc_log_count c = 1 \<and> ids_ok coll1
           \<and> find_one coll1 ou (normalise U (normalise U n)) = Some d \<and> d_log_count d = 1
           \<and> docs coll1 = docs coll @ [d] \<and> d_user_id d = ou
           \<and> d_condition_name d = normalise U (normalise U n)"
proof -
  let ?NN = "normalise U (normalise U n)"
  let ?d = "\<lparr>d_id = next_id coll, d_user_id = ou, d_condition_name = ?NN, d_status = ACTIVE,
             d_log_count = 1, d_first_reported = now, d_last_reported = now,
             d_created_at = now, d_updated_at = now\<rparr>"
  have nodup: "\<not> list_ex (same_key ou ?NN) (docs coll)"
    using foc_missing [OF assms(1,3), of now] assms(4,5)
    by (auto simp: Let_def succeeded_def split: if_splits)
  then have eq: "(r, coll1) =
     (Inr ((HealthCondition_init U now u (normalise U n) ACTIVE 1 (Some now) (Some now)
                  None None None)\<lparr>hc_id := Some (next_id coll)\<rparr>, True),
      coll\<lparr>docs := docs coll @ [?d], next_id := Suc (next_id coll)\<rparr>)"
    using foc_missing [OF assms(1,3), of now] assms(4) by (simp add: Let_def)
  have ok: "ids_ok coll1"
    using ids_ok_insert [OF assms(2), of ?d] eq by simp
  have "find (same_key ou ?NN) (docs coll @ [?d]) = Some ?d"
  proof -
    have "find (same_key ou ?NN) (docs coll) = None"
      using nodup by (auto simp: list_ex_iff find_None_iff)
    then show ?thesis by (simp add: find_snoc same_key_def)
  qed
  then have f: "find_one coll1 ou ?NN = Some ?d" using eq by (simp add: find_one_def)
  show ?thesis using eq ok f by (auto simp: HealthCondition_init_def)
qed


section \<open>Closed examples: evaluation lemmas\<close>

lemma ObjectId_user1: "ObjectId user1 = Inr user1"
  by (simp add: ObjectId_def user1_def py_def is_hex_def ascii_lower_def)

lemma normalise_flu: "normalise ucd_excerpt (py ''flu'') = py ''Flu''"
  by (simp add: normalise_def title_def strip_def strip_by_def ucd_excerpt_def py_def
      lower_ucs4_def ascii_space_def ascii_letter_def ascii_upper_def ascii_lower_def)

lemma normalise_Flu: "normalise ucd_excerpt (py ''Flu'') = py ''Flu''"
  by (simp add: normalise_def title_def strip_def strip_by_def ucd_excerpt_def py_def
      lower_ucs4_def ascii_space_def ascii_letter_def ascii_upper_def ascii_lower_def)

section \<open>Normalisation: the claim\<close>










section \<open>find_or_create: the claims\<close>

text \<open>
  C8. A call for the (user, normalised name) of an existing card returns that card with
  status ACTIVE and \<open>is_new = False\<close>, whatever its status was (RESOLVED is reactivated,
  ACTIVE stays); the stored card is ACTIVE as well, and no card is added.
\<close>

theorem reactivation:
  assumes "ids_ok coll" and "ObjectId user_id = Inr ou"
    and "find_one coll ou (normalise U condition_name) = Some doc"
  shows "\<exists>crd coll'. find_or_create U now coll user_id condition_name = (Inr (crd, False), coll')
           \<and> hc_status crd = ACTIVE \<and> hc_id crd = Some (d_id doc)
           \<and> hc_log_count crd = d_log_count doc + 1
           \<and> (\<exists>doc'. find_one coll' ou (normalise U condition_name) = Some doc'
                 \<and> d_id doc' = d_id doc \<and> d_status doc' = ACTIVE)
           \<and> length (docs coll') = length (docs coll)
           \<and> count_cards coll' ou (normalise U condition_name)
               = count_cards coll ou (normalise U condition_name)"
proof -
  obtain c where c: "find_or_create U now coll user_id condition_name
        = (Inr (c, False), update_one coll (Some (d_id doc)) c)"
    "hc_status c = ACTIVE" "hc_log_count c = d_log_count doc + 1" "hc_id c = Some (d_id doc)"
    using foc_found [OF assms(2,3)] by blast
  let ?coll' = "update_one coll (Some (d_id doc)) c"
  have f: "find_one ?coll' ou (normalise U condition_name) = Some (set_fields c doc)"
    using assms(1,3) by (rule find_one_update_one)
  have l: "length (docs ?coll') = length (docs coll)" by (simp add: update_one_def)
  show ?thesis using c f l by simp
qed

theorem reactivation_witness:
  "\<exists>crd coll'. find_or_create ucd_excerpt 9 flu_resolved user1 (py ''flu'') = (Inr (crd, False), coll')
     \<and> hc_status crd = ACTIVE \<and> hc_id crd = Some 0 \<and> hc_log_count crd = 4
     \<and> (\<exists>doc'. find_one coll' user1 (py ''Flu'') = Some doc' \<and> d_id doc' = 0
            \<and> d_status doc' = ACTIVE)
     \<and> length (docs coll') = 1"
proof -
  have 1: "ids_ok flu_resolved" by (simp add: ids_ok_def flu_resolved_def)
  have 3: "find_one flu_resolved user1 (normalise ucd_excerpt (py ''flu''))
      = Some (hd (docs flu_resolved))"
    by (simp add: normalise_flu find_one_def flu_resolved_def same_key_def)
  have "\<exists>crd coll'. find_or_create ucd_excerpt 9 flu_resolved user1 (py ''flu'')
           = (Inr (crd, False), coll')
     \<and> hc_status crd = ACTIVE \<and> hc_id crd = Some 0 \<and> hc_log_count crd = 4
     \<and> (\<exists>doc'. find_one coll' user1 (py ''Flu'') = Some doc' \<and> d_id doc' = 0
            \<and> d_status doc' = ACTIVE)
     \<and> length (docs coll') = 1
     \<and> count_cards coll' user1 (py ''Flu'') = count_cards flu_resolved user1 (py ''Flu'')"
    using reactivation [OF 1 ObjectId_user1 3, of 9]
    by (simp add: normalise_flu) (simp add: flu_resolved_def)
  then show ?thesis by blast
qed

text \<open>
  C7. Starting without a card for (user, name), after \<open>k \<ge> 1\<close> sequential calls that all
  succeed the card's \<open>log_count\<close> is \<open>k\<close>: the first call creates the card with count 1
  (\<open>is_new = True\<close>), the call number \<open>i + 1\<close> returns it with count \<open>i + 1\<close>
  (\<open>is_new = False\<close>), and the stored card has count \<open>k\<close>.
\<close>

theorem occurrence_count:
  assumes "ids_ok coll" and "ObjectId user_id = Inr ou"
    and "count_cards coll ou (normalise U condition_name) = 0"
    and "calls U coll user_id condition_name nows = (rs, coll')"
    and "list_all succeeded rs" and "nows \<noteq> []"
  shows "(\<forall>i < length nows. \<exists>crd. rs ! i = Inr (crd, i = 0) \<and> hc_log_count crd = int i + 1)
       \<and> (\<exists>doc. find_one coll' ou (normalise U (normalise U condition_name)) = Some doc
               \<and> d_log_count doc = int (length nows))"
proof -
  let ?N = "normalise U condition_name"
  let ?NN = "normalise U ?N"
  obtain t ts where nows: "nows = t # ts" using assms(6) by (cases nows) auto
  obtain r coll1 where r: "find_or_create U t coll user_id condition_name = (r, coll1)"
    by (cases "find_or_create U t coll user_id condition_name") auto
  obtain rs' where rs': "calls U coll1 user_id condition_name ts = (rs', coll')"
    and rs: "rs = r # rs'"
    using assms(4) nows r by (auto split: prod.splits)
  have sr: "succeeded r" and srs: "list_all succeeded rs'" using assms(5) rs by simp_all
  have none: "find_one coll ou ?N = None" using assms(3) by (simp add: find_one_None_count)
  obtain c d where cd: "r = Inr (c, True)" "hc_log_count c = 1" "ids_ok coll1"
    "find_one coll1 ou ?NN = Some d" "d_log_count d = 1" "docs coll1 = docs coll @ [d]"
    "d_user_id d = ou" "d_condition_name d = ?NN"
    using foc_first [OF assms(2,1) none r sr] by blast
  show ?thesis
  proof (cases ts)
    case Nil
    then have "rs' = []" "coll' = coll1" using rs' by simp_all
    then show ?thesis using nows Nil rs cd by simp
  next
    case (Cons t2 ts2)
    have same: "?NN = ?N"
    proof (rule ccontr)
      assume ne: "?NN \<noteq> ?N"
      have "find (same_key ou ?N) (docs coll) = None" using none by (simp add: find_one_def)
      then have n1: "find_one coll1 ou ?N = None"
        using cd(6,8) ne by (simp add: find_one_def find_snoc same_key_def)
      have ex: "list_ex (same_key ou ?NN) (docs coll1)"
        using cd(6,7,8) by (simp add: same_key_def)
      have "find_or_create U t2 coll1 user_id condition_name = (Inl DuplicateKeyError, coll1)"
        using foc_missing [OF assms(2) n1, of t2] ex by (simp add: Let_def)
      then have "hd rs' = Inl DuplicateKeyError" using rs' Cons by (auto split: prod.splits)
      moreover have "rs' \<noteq> []" using calls_length [OF rs'] Cons by auto
      ultimately show False using srs by (cases rs') (simp_all add: succeeded_def)
    qed
    have f1: "find_one coll1 ou ?N = Some d" using cd(4) same by simp
    have cf: "(\<forall>i < length ts. \<exists>c'. rs' ! i = Inr (c', False)
                  \<and> hc_log_count c' = d_log_count d + int i + 1)
         \<and> (\<exists>d'. find_one coll' ou ?N = Some d'
                 \<and> d_log_count d' = d_log_count d + int (length ts))"
      using calls_found [OF assms(2) cd(3) f1 rs'] .
    have "\<exists>crd. rs ! i = Inr (crd, i = 0) \<and> hc_log_count crd = int i + 1"
      if "i < length nows" for i
    proof (cases i)
      case 0
      then show ?thesis using rs cd(1,2) by simp
    next
      case (Suc j)
      then have "j < length ts" using that nows by simp
      then obtain c' where "rs' ! j = Inr (c', False)"
        "hc_log_count c' = d_log_count d + int j + 1" using cf by blast
      then show ?thesis using Suc rs cd(5) by simp
    qed
    moreover have "\<exists>doc. find_one coll' ou ?NN = Some doc \<and> d_log_count doc = int (length nows)"
      using cf cd(5) same nows by auto
    ultimately show ?thesis by blast
  qed
qed


theorem occurrence_count_witness:
  "(\<exists>crd. fst (calls ucd_excerpt empty_conditions user1 (py ''flu'') [1, 2, 3]) ! 2
             = Inr (crd, False) \<and> hc_log_count crd = 3)
   \<and> (\<exists>doc. find_one (snd (calls ucd_excerpt empty_conditions user1 (py ''flu'') [1, 2, 3]))
               user1 (py ''Flu'') = Some doc \<and> d_log_count doc = 3)"
proof -
  let ?r = "calls ucd_excerpt empty_conditions user1 (py ''flu'') [1, 2, 3]"
  have 1: "ids_ok empty_conditions" by (simp add: ids_ok_def empty_conditions_def)
  have 3: "count_cards empty_conditions user1 (normalise ucd_excerpt (py ''flu'')) = 0"
    by (simp add: count_cards_def empty_conditions_def)
  have 4: "?r = (fst ?r, snd ?r)" by simp
  have 5: "list_all succeeded (fst ?r)"
    by (simp add: find_or_create_def ObjectId_user1 normalise_flu normalise_Flu find_one_def
        same_key_def empty_conditions_def Let_def HealthCondition_init_def to_dict_def
        insert_one_def update_one_def from_dict_def record_new_log_def touch_def
        set_fields_def succeeded_def)
  have 6: "[1, 2, 3::nat] \<noteq> []" by simp
  have "(\<forall>i < length [1, 2, 3::nat]. \<exists>crd. fst ?r ! i = Inr (crd, i = 0)
            \<and> hc_log_count crd = int i + 1)
       \<and> (\<exists>doc. find_one (snd ?r) user1
                   (normalise ucd_excerpt (normalise ucd_excerpt (py ''flu''))) = Some doc
               \<and> d_log_count doc = int (length [1, 2, 3::nat]))"
    using occurrence_count [OF 1 ObjectId_user1 3 4 5 6] .
  then have a: "\<forall>i < 3. \<exists>crd. fst ?r ! i = Inr (crd, i = 0) \<and> hc_log_count crd = int i + 1"
    and b: "\<exists>doc. find_one (snd ?r) user1 (py ''Flu'') = Some doc \<and> d_log_count doc = 3"
    by (simp_all add: normalise_flu normalise_Flu)
  from a have "\<exists>crd. fst ?r ! 2 = Inr (crd, (2::nat) = 0) \<and> hc_log_count crd = int 2 + 1"
    by (rule allE [of _ 2]) simp
  then have "\<exists>crd. fst ?r ! 2 = Inr (crd, False) \<and> hc_log_count crd = 3" by simp
  then show ?thesis using b by blast
qed

section \<open>Concurrent calls: lemmas\<close>

lemma foc_split:
  "find_or_create U now coll u n =
     (case foc_read U coll u n of
        Inl e \<Rightarrow> (Inl e, coll)
      | Inr found \<Rightarrow> foc_write U now coll u n found)"
  by (simp add: find_or_create_def foc_read_def foc_write_def Let_def split: sum.splits option.splits)

lemma keys_update_one [simp]: "keys (update_one coll i c) = keys coll"
  by (simp add: keys_def update_one_keys)

lemma unique_index_keys: "unique_index coll = distinct (keys coll)"
  by (simp add: unique_index_def keys_def)

lemma list_ex_keys: "list_ex (same_key u n) (docs coll) \<longleftrightarrow> (u, n) \<in> set (keys coll)"
  by (auto simp: list_ex_iff keys_def same_key_def)

lemma find_one_keys: "find_one coll u n = Some d \<Longrightarrow> (u, n) \<in> set (keys coll)"
  by (auto simp: find_one_def find_Some_iff keys_def same_key_def)

lemma count_cards_one:
  assumes "unique_index coll" and "(u, n) \<in> set (keys coll)"
  shows "count_cards coll u n = 1"
proof -
  have "distinct (map (\<lambda>d. (d_user_id d, d_condition_name d)) xs) \<Longrightarrow>
        (u, n) \<in> set (map (\<lambda>d. (d_user_id d, d_condition_name d)) xs) \<Longrightarrow>
        length (filter (same_key u n) xs) = 1" for xs
  proof (induction xs)
    case Nil
    then show ?case by simp
  next
    case (Cons x xs)
    show ?case
    proof (cases "same_key u n x")
      case True
      then have "(u, n) \<notin> set (map (\<lambda>d. (d_user_id d, d_condition_name d)) xs)"
        using Cons.prems(1) by (auto simp: same_key_def)
      then have "filter (same_key u n) xs = []"
        by (auto simp: filter_empty_conv same_key_def)
      then show ?thesis using True by simp
    next
      case False
      then show ?thesis using Cons by (auto simp: same_key_def)
    qed
  qed
  then show ?thesis using assms by (simp add: count_cards_def unique_index_def keys_def)
qed

text \<open>What the write of a call does to the keys of the collection.\<close>

lemma foc_write_keys:
  assumes "foc_write U now coll u n f = (r, coll')" and "unique_index coll"
  shows "unique_index coll' \<and> set (keys coll) \<subseteq> set (keys coll')
       \<and> (\<forall>ou. ObjectId u = Inr ou \<longrightarrow> (f \<noteq> None \<longrightarrow> (ou, normalise U n) \<in> set (keys coll))
               \<longrightarrow> normalise U n = n \<longrightarrow> (ou, n) \<in> set (keys coll'))"
proof (cases f)
  case (Some d)
  then have "coll' = update_one coll (Some (d_id d))
       (if d_status d = RESOLVED then reactivate now (record_new_log now (from_dict U now d))
        else record_new_log now (from_dict U now d))"
    using assms(1) by (auto simp: foc_write_def Let_def)
  then have "keys coll' = keys coll" by simp
  then show ?thesis using assms(2) Some by (auto simp: unique_index_keys)
next
  case None
  show ?thesis
  proof (cases "ObjectId u")
    case (Inl e)
    then have "coll' = coll"
      using assms(1) None by (simp add: foc_write_def Let_def to_dict_def HealthCondition_init_def)
    then show ?thesis using assms(2) Inl by simp
  next
    case (Inr ou)
    let ?NN = "normalise U (normalise U n)"
    show ?thesis
    proof (cases "(ou, ?NN) \<in> set (keys coll)")
      case True
      then have "coll' = coll"
        using assms(1) None Inr
        by (simp add: foc_write_def Let_def to_dict_def HealthCondition_init_def insert_one_def
            list_ex_keys)
      then show ?thesis using assms(2) Inr True by auto
    next
      case False
      then have "keys coll' = keys coll @ [(ou, ?NN)]"
        using assms(1) None Inr
        by (auto simp: foc_write_def Let_def to_dict_def HealthCondition_init_def insert_one_def
            list_ex_keys keys_def)
      then show ?thesis using assms(2) Inr False by (auto simp: unique_index_keys)
    qed
  qed
qed


lemma step_inv:
  assumes "run_inv U c"
  shows "run_inv U (step U c ev)"
proof (cases ev)
  case (Begin u n)
  show ?thesis
  proof (cases "ObjectId u")
    case (Inl e)
    then have "step U c ev = c\<lparr>finished := finished c @ [(u, n, Inl e)]\<rparr>"
      using Begin by (simp add: step_def foc_read_def)
    then show ?thesis using assms Inl by (auto simp: run_inv_def)
  next
    case (Inr ou)
    then have s: "step U c ev
        = c\<lparr>pending := pending c @ [(u, n, find_one (db c) ou (normalise U n))]\<rparr>"
      using Begin by (simp add: step_def foc_read_def)
    have "find_one (db c) ou (normalise U n) \<noteq> None \<Longrightarrow> (ou, normalise U n) \<in> set (keys (db c))"
      by (auto dest: find_one_keys)
    then show ?thesis using assms Inr s by (auto simp: run_inv_def)
  qed
next
  case (Finish i now)
  show ?thesis
  proof (cases "i < length (pending c)")
    case False
    then show ?thesis using assms Finish by (simp add: step_def)
  next
    case True
    obtain u n f where p: "pending c ! i = (u, n, f)" by (cases "pending c ! i") auto
    obtain r coll' where w: "foc_write U now (db c) u n f = (r, coll')"
      by (cases "foc_write U now (db c) u n f") auto
    have s: "step U c ev = c\<lparr>db := coll',
                pending := take i (pending c) @ drop (Suc i) (pending c),
                finished := finished c @ [(u, n, r)]\<rparr>"
      using Finish True p w by (simp add: step_def)
    have mem: "(u, n, f) \<in> set (pending c)" using True p by (metis nth_mem)
    have ui: "unique_index (db c)" using assms by (simp add: run_inv_def)
    have k: "unique_index coll'" "set (keys (db c)) \<subseteq> set (keys coll')"
      "\<And>ou. ObjectId u = Inr ou \<Longrightarrow> (f \<noteq> None \<longrightarrow> (ou, normalise U n) \<in> set (keys (db c)))
               \<Longrightarrow> normalise U n = n \<Longrightarrow> (ou, n) \<in> set (keys coll')"
      using foc_write_keys [OF w ui] by blast+
    have pend: "\<And>ou. ObjectId u = Inr ou \<Longrightarrow> f \<noteq> None \<Longrightarrow> (ou, normalise U n) \<in> set (keys (db c))"
      using assms mem by (auto simp: run_inv_def)
    have new: "\<And>ou. ObjectId u = Inr ou \<Longrightarrow> normalise U n = n \<Longrightarrow> (ou, n) \<in> set (keys coll')"
      using k(3) pend by blast
    have sub: "set (take i (pending c) @ drop (Suc i) (pending c)) \<subseteq> set (pending c)"
      by (auto dest: in_set_takeD in_set_dropD)
    have p': "\<forall>(u, n, f) \<in> set (take i (pending c) @ drop (Suc i) (pending c)).
                \<forall>ou. ObjectId u = Inr ou \<longrightarrow> f \<noteq> None
                  \<longrightarrow> (ou, normalise U n) \<in> set (keys coll')"
      using assms sub k(2) unfolding run_inv_def by fast
    have f': "\<forall>(u, n, r) \<in> set (finished c @ [(u, n, r)]).
                \<forall>ou. ObjectId u = Inr ou \<longrightarrow> normalise U n = n
                  \<longrightarrow> (ou, n) \<in> set (keys coll')"
      using assms k(2) new unfolding run_inv_def by fastforce
    show ?thesis using s k(1) p' f' by (simp add: run_inv_def)
  qed
qed

lemma run_inv_run: "run_inv U c \<Longrightarrow> run_inv U (run U c evs)"
  by (induction evs arbitrary: c) (simp_all add: step_inv)

lemma run_inv_init: "unique_index coll \<Longrightarrow> run_inv U (init_config coll)"
  by (simp add: run_inv_def init_config_def)

text \<open>
  C1. Whatever the interleaving of the reads and writes of any number of calls, started
  on a collection that satisfies its unique index: no two cards share an (owner, name)
  pair, and once a call for a valid user and a normalised name has returned, exactly one
  card exists for that pair.
\<close>

theorem uniqueness_invariant:
  assumes "unique_index coll"
  shows "unique_index (db (run U (init_config coll) evs))
       \<and> (\<forall>(user_id, name, r) \<in> set (finished (run U (init_config coll) evs)).
            \<forall>ou. ObjectId user_id = Inr ou \<longrightarrow> normalise U name = name
              \<longrightarrow> count_cards (db (run U (init_config coll) evs)) ou name = 1)"
proof -
  let ?c = "run U (init_config coll) evs"
  have inv: "run_inv U ?c" using assms by (intro run_inv_run run_inv_init)
  then have ui: "unique_index (db ?c)" by (simp add: run_inv_def)
  have "count_cards (db ?c) ou name = 1"
    if "(user_id, name, r) \<in> set (finished ?c)" "ObjectId user_id = Inr ou"
      "normalise U name = name" for user_id name r ou
  proof -
    have "(ou, name) \<in> set (keys (db ?c))" using inv that unfolding run_inv_def by fast
    then show ?thesis using ui by (intro count_cards_one)
  qed
  then show ?thesis using ui by fast
qed

lemma run_race:
  "finished (run ucd_excerpt (init_config empty_conditions) race)
     = [(user1, py ''Flu'',
         Inr (\<lparr>hc_id = Some 0, hc_user_id = user1, hc_condition_name = py ''Flu'',
               hc_status = ACTIVE, hc_log_count = 1, hc_first_reported = 1,
               hc_last_reported = 1, hc_created_at = 1, hc_updated_at = 1\<rparr>, True)),
        (user1, py ''Flu'', Inl DuplicateKeyError)]"
  by (simp add: race_def step_def foc_read_def foc_write_def init_config_def
      ObjectId_user1 normalise_Flu find_one_def same_key_def empty_conditions_def Let_def
      HealthCondition_init_def to_dict_def insert_one_def)

theorem uniqueness_invariant_witness:
  "unique_index (db (run ucd_excerpt (init_config empty_conditions) race))
   \<and> count_cards (db (run ucd_excerpt (init_config empty_conditions) race)) user1 (py ''Flu'') = 1"
proof -
  have 1: "unique_index empty_conditions" by (simp add: unique_index_def empty_conditions_def)
  have m: "(user1, py ''Flu'', Inl DuplicateKeyError)
             \<in> set (finished (run ucd_excerpt (init_config empty_conditions) race))"
    by (simp add: run_race)
  show ?thesis
    using uniqueness_invariant [OF 1, of ucd_excerpt race] m ObjectId_user1 normalise_Flu
    by fast
qed

text \<open>
  C2 (as stated: a uniqueness conflict at creation is retried as an update and never
  reaches the caller). Of two first-time reports whose calls overlap, the one that
  writes second gets the conflict: it returns \<open>DuplicateKeyError\<close>.
\<close>

theorem conflict_reaches_caller:
  "snd (snd (finished (run ucd_excerpt (init_config empty_conditions) race) ! 1))
     = Inl DuplicateKeyError"
  by (simp add: run_race)

text \<open>
  C2 (amended). When the creation of a new card hits the unique index, because a card
  for the pair was inserted after this call's lookup, the call raises
  \<open>DuplicateKeyError\<close> to its caller and leaves the collection as it was: there is no
  retry.
\<close>

theorem conflict_is_raised:
  assumes "ObjectId user_id = Inr ou"
    and "list_ex (same_key ou (normalise U (normalise U condition_name))) (docs coll)"
  shows "foc_write U now coll user_id condition_name None = (Inl DuplicateKeyError, coll)"
  using assms
  by (simp add: foc_write_def Let_def to_dict_def HealthCondition_init_def insert_one_def)

theorem conflict_is_raised_witness:
  "foc_write ucd_excerpt 7 flu_resolved user1 (py ''flu'') None
     = (Inl DuplicateKeyError, flu_resolved)"
proof -
  have "list_ex (same_key user1 (normalise ucd_excerpt (normalise ucd_excerpt (py ''flu''))))
          (docs flu_resolved)"
    by (simp add: normalise_flu normalise_Flu flu_resolved_def same_key_def)
  then show ?thesis using conflict_is_raised [OF ObjectId_user1] by simp
qed

section \<open>process_input: lemmas\<close>

lemma ObjectId_error: "ObjectId s = Inl e \<Longrightarrow> e = InvalidId"
  by (auto simp: ObjectId_def split: if_splits)

lemma get_memory_error: "get_memory st u = Inl e \<Longrightarrow> e = InvalidId"
  by (auto simp: get_memory_def dest: ObjectId_error split: sum.splits)

lemma goc_memory_cases:
  "get_or_create_memory now st u = (r, st1) \<Longrightarrow>
     (r = Inl InvalidId \<and> st1 = st)
   \<or> (\<exists>m. r = Inr m \<and> get_memory st u = Inr (Some m) \<and> st1 = st)
   \<or> (\<exists>m ou. r = Inr m \<and> get_memory st u = Inr None \<and> ObjectId u = Inr ou \<and>
        mm_summary_memory m = [] \<and> mm_persona_preferences m = default_preferences \<and>
        st1 = st\<lparr>st_memory := st_memory st @ [blank_memory_doc (st_memory_next st) now ou],
                 st_memory_next := Suc (st_memory_next st)\<rparr>)"
  by (auto simp: get_or_create_memory_def dest: get_memory_error ObjectId_error
           split: sum.splits option.splits)

lemma goc_memory_state:
  "get_or_create_memory now st u = (r, st1) \<Longrightarrow> st1 = st \<or> memory_created now st u st1"
  by (auto simp: memory_created_def dest!: goc_memory_cases)

lemma goc_memory_ok:
  "ObjectId u = Inr ou \<Longrightarrow> \<exists>m st1. get_or_create_memory now st u = (Inr m, st1)"
  by (auto simp: get_or_create_memory_def get_memory_def split: option.splits)

lemma memory_created_frame:
  "memory_created now st u st1 \<Longrightarrow>
     st_conditions st1 = st_conditions st \<and> st_logs st1 = st_logs st
     \<and> st_logs_next st1 = st_logs_next st"
  by (auto simp: memory_created_def)

lemma history_turns_error: "history_turns ms = Inl e \<Longrightarrow> e = AttributeError"
  by (induction ms arbitrary: e) (auto split: json.splits sum.splits)

lemma history_contents_error:
  "history_contents h = Inl e \<Longrightarrow> e = AttributeError \<or> e = TypeError"
  by (auto simp: history_contents_def dest: history_turns_error
           split: option.splits if_splits json.splits)

lemma find_or_create_error:
  "find_or_create U now coll u n = (Inl e, coll') \<Longrightarrow> coll' = coll"
  by (auto simp: find_or_create_def Let_def split: sum.splits option.splits prod.splits)

lemma find_or_create_valid_id:
  "find_or_create U now coll u n = (Inr x, coll') \<Longrightarrow> \<exists>ou. ObjectId u = Inr ou"
  by (auto simp: find_or_create_def Let_def split: sum.splits)

lemma join_strs_error: "join_strs sep xs = Inl e \<Longrightarrow> e = TypeError"
  by (induction sep xs arbitrary: e rule: join_strs.induct)
     (auto split: json.splits sum.splits)

lemma join_error: "join sep v = Inl e \<Longrightarrow> e = TypeError"
  by (auto simp: join_def dest: join_strs_error split: json.splits)

lemma save_memory_frame:
  "save_memory now st m = (m', st') \<Longrightarrow>
     st_conditions st' = st_conditions st \<and> st_logs st' = st_logs st
     \<and> st_logs_next st' = st_logs_next st"
  by (auto simp: save_memory_def Let_def)

lemma append_to_summary_frame:
  assumes "append_to_summary now st u s = (r, st')"
  shows "st_conditions st' = st_conditions st \<and> st_logs st' = st_logs st
         \<and> st_logs_next st' = st_logs_next st"
proof -
  obtain r1 st1 where g: "get_or_create_memory now st u = (r1, st1)"
    by (cases "get_or_create_memory now st u")
  from goc_memory_state [OF g] have f: "st_conditions st1 = st_conditions st
      \<and> st_logs st1 = st_logs st \<and> st_logs_next st1 = st_logs_next st"
    by (auto dest: memory_created_frame)
  show ?thesis
  proof (cases r1)
    case (Inl e)
    then show ?thesis using assms g f by (simp add: append_to_summary_def)
  next
    case (Inr m)
    then show ?thesis using assms g f
      by (auto simp: append_to_summary_def Let_def split: prod.splits if_splits
               dest!: save_memory_frame)
  qed
qed

lemma append_to_summary_ok:
  assumes "ObjectId u = Inr ou"
  shows "\<exists>m st'. append_to_summary now st u s = (Inr m, st')"
proof -
  from goc_memory_ok [OF assms] obtain m st1
    where "get_or_create_memory now st u = (Inr m, st1)" by blast
  then show ?thesis
    by (auto simp: append_to_summary_def Let_def split: prod.splits)
qed

lemma create_ok:
  assumes "ObjectId u = Inr ou" and "dict_get r (py ''extracted_data'') = Some (JDict e)"
  shows "\<exists>i. create_from_gemini_result now st u r mode c
           = (Inr i, st\<lparr>st_logs := st_logs st @ [
                \<lparr>l_id = st_logs_next st, l_user_id = ou,
                  l_condition_name = get_or r (py ''condition_name'') (JStr []),
                  l_pain_level = get_or e (py ''pain_level'') (JInt 0),
                  l_location = or_empty_list (get_or e (py ''location'') (JList [])),
                  l_details = get_or e (py ''details'') (JStr []),
                  l_symptom_timestamp = get_or e (py ''timestamp'') (JStr []),
                  l_input_mode = mode,
                  l_mascot_response = get_or r (py ''mascot_response'') (JStr []),
                  l_mascot_notes = or_empty_list (get_or e (py ''mascot_notes'') (JList [])),
                  l_condition_id = c, l_created_at = now\<rparr>],
                st_logs_next := Suc (st_logs_next st)\<rparr>)"
  using assms by (simp add: create_from_gemini_result_def get_or_def)

lemma py_eq_iff [simp]: "py a = py b \<longleftrightarrow> a = b"
  by (simp add: py_def inj_map_eq_map inj_def)

lemma py_Nil [simp]: "py s = [] \<longleftrightarrow> s = []"
  by (simp add: py_def)

lemma dict_get_dict_set:
  "dict_get (dict_set k v d) k' = (if k' = k then Some v else dict_get d k')"
  by (induction d) (auto simp: dict_get_def)


text \<open>
  What a call of step 9 does to the stored state: it fails before the card is written, or
  fails with the card written, or fails at the log's insert with the card and the summary
  written, or succeeds with one log added, which carries the input mode.
\<close>

lemma upsert_cases:
  assumes run: "upsert_and_log E now st u mode result = (r, st')"
  shows "(\<exists>e. r = Inl e \<and> st' = st)
       \<or> (\<exists>e. r = Inl e \<and> st'\<lparr>st_conditions := st_conditions st\<rparr> = st
              \<and> (e = TypeError \<or> e = AttributeError \<or> e = StorageFailure AppendSummary))
       \<or> (r = Inl (StorageFailure InsertLog) \<and> st_logs st' = st_logs st
              \<and> st_logs_next st' = st_logs_next st)
       \<or> (\<exists>d log. r = Inr d \<and> st_logs st' = st_logs st @ [log] \<and> l_input_mode log = mode)"
proof (cases "dict_get result (py ''extracted_data'')")
  case None
  then show ?thesis using run by (auto simp: upsert_and_log_def)
next
  case (Some entry)
  show ?thesis
  proof (cases "\<exists>name. get_or result (py ''condition_name'') JNull = JStr name")
    case False
    then show ?thesis using run Some
      by (auto simp: upsert_and_log_def split: json.splits)
  next
    case True
    then obtain name where name: "get_or result (py ''condition_name'') JNull = JStr name"
      by blast
    show ?thesis
    proof (cases "storage_fails E UpsertCard")
      case True
      then show ?thesis using run Some name
        by (auto simp: upsert_and_log_def storage_call_def)
    next
      case up: False
      obtain fr coll where foc:
        "find_or_create (unicode E) now (st_conditions st) u name = (fr, coll)"
        by (cases "find_or_create (unicode E) now (st_conditions st) u name")
      show ?thesis
      proof (cases fr)
        case (Inl e)
        then have "coll = st_conditions st" using foc by (auto dest: find_or_create_error)
        then show ?thesis using run Some name up foc Inl
          by (auto simp: upsert_and_log_def storage_call_def)
      next
        case (Inr x)
        obtain crd is_new where x: "x = (crd, is_new)" by (cases x)
        from foc Inr obtain ou where ou: "ObjectId u = Inr ou"
          by (auto dest: find_or_create_valid_id)
        define st1 where "st1 = st\<lparr>st_conditions := coll\<rparr>"
        define result1 where "result1 = dict_set (py ''is_new_condition'') (JBool is_new)
            (dict_set (py ''condition_id'')
               (case hc_id crd of None \<Rightarrow> JNull | Some i \<Rightarrow> JStr (id_str i)) result)"
        have st1: "st1\<lparr>st_conditions := st_conditions st\<rparr> = st" "st_logs st1 = st_logs st"
            "st_logs_next st1 = st_logs_next st"
          by (simp_all add: st1_def)
        have r1: "dict_get result1 (py ''extracted_data'') = Some entry"
          using Some by (simp add: result1_def dict_get_dict_set)
        show ?thesis
        proof (cases "\<exists>e. entry = JDict e")
          case False
          then have "r = Inl AttributeError \<and> st' = st1"
            using run Some name up foc Inr x
            by (auto simp: upsert_and_log_def storage_call_def Let_def st1_def
                     split: json.splits)
          then show ?thesis using st1 by auto
        next
          case True
          then obtain e where e: "entry = JDict e" by blast
          show ?thesis
          proof (cases "join (py ''; '') (get_or e (py ''mascot_notes'') (JList []))")
            case (Inl err)
            then have "r = Inl err \<and> st' = st1"
              using run Some name up foc Inr x e
              by (auto simp: upsert_and_log_def storage_call_def Let_def st1_def)
            moreover have "err = TypeError" using Inl by (rule join_error)
            ultimately show ?thesis using st1 by auto
          next
            case nt: (Inr notes_str)
            show ?thesis
            proof (cases "storage_fails E AppendSummary")
              case True
              then have "r = Inl (StorageFailure AppendSummary) \<and> st' = st1"
                using run Some name up foc Inr x e nt
                by (auto simp: upsert_and_log_def storage_call_def Let_def st1_def)
              then show ?thesis using st1 by auto
            next
              case ap: False
              from append_to_summary_ok [OF ou] obtain m st2 where app:
                "append_to_summary now st1 u (summary_line E result1 e notes_str) = (Inr m, st2)"
                by blast
              from append_to_summary_frame [OF app] st1
              have st2: "st_logs st2 = st_logs st" "st_logs_next st2 = st_logs_next st"
                by simp_all
              show ?thesis
              proof (cases "storage_fails E InsertLog")
                case True
                then have "r = Inl (StorageFailure InsertLog) \<and> st' = st2"
                  using run Some name up foc Inr x e nt ap app
                  by (auto simp: upsert_and_log_def storage_call_def Let_def st1_def
                        result1_def)
                then show ?thesis using st2 by auto
              next
                case il: False
                from create_ok [OF ou, of result1 e now st2 mode "hc_id crd"] r1 e
                obtain i st3 log where cr:
                  "create_from_gemini_result now st2 u result1 mode (hc_id crd) = (Inr i, st3)"
                  and st3: "st_logs st3 = st_logs st2 @ [log]" "l_input_mode log = mode"
                  by auto
                have "r = Inr (dict_set (py ''log_id'') (JStr (id_str i)) result1) \<and> st' = st3"
                  using run Some name up foc Inr x e nt ap app il cr
                  by (auto simp: upsert_and_log_def storage_call_def Let_def st1_def
                        result1_def)
                then show ?thesis using st3 st2 by auto
              qed
            qed
          qed
        qed
      qed
    qed
  qed
qed

text \<open>The run of \<open>process_input\<close>, with the results of its first calls named.\<close>

lemma resolve_present:
  "fst (resolve_file U m d file bytes mime) = None \<longleftrightarrow> file = None \<and> bytes = None"
  by (auto simp: resolve_file_def split: option.splits)

lemma process_input_run:
  assumes "resolve_file (unicode E) AUDIO_EXT_MAP (py ''audio/webm'')
             (a_audio_file a) (a_audio_bytes a) (a_audio_mime a) = (ab, am)"
    and "resolve_file (unicode E) IMAGE_EXT_MAP (py ''image/jpeg'')
             (a_image_file a) (a_image_bytes a) (a_image_mime a) = (ib, im)"
    and "get_or_create_memory now st (a_user_id a) = (g, st1)"
  shows "process_input E now st a =
     (if \<not> has_text (a_text a) \<and> ab = None \<and> ib = None
      then (Inl (ValueError no_input_message), st)
      else if storage_fails E LoadMemory then (Inl (StorageFailure LoadMemory), st)
      else case g of
        Inl e \<Rightarrow> (Inl e, st1)
      | Inr memory \<Rightarrow>
        (case history_contents (a_conversation_history a) of
           Inl e \<Rightarrow> (Inl e, st1)
         | Inr turns \<Rightarrow>
           (case generate_content E
                   (generate_system_instruction E now memory
                     @ (if a_force_log a then force_log_instruction E else []))
                   (turns @ (if current_parts (a_text a) ab am ib im (a_force_log a) \<noteq> []
                             then [Content (py ''user'')
                                     (current_parts (a_text a) ab am ib im (a_force_log a))]
                             else [])) of
              Inl e \<Rightarrow> (Inl e, st1)
            | Inr raw_text \<Rightarrow>
              (case parse_response E raw_text of
                 Inl e \<Rightarrow> (Inl e, st1)
               | Inr parsed \<Rightarrow>
                 (if dict_get (dict_set (py ''memory_context'') (memory_context memory) parsed)
                       (py ''action'') = Some (JStr (py ''update_condition''))
                     \<and> truthy (get_or (dict_set (py ''memory_context'') (memory_context memory)
                                   parsed) (py ''condition_name'') JNull)
                  then upsert_and_log E now st1 (a_user_id a)
                         (input_mode_of (has_text (a_text a)) (ab \<noteq> None) (ib \<noteq> None))
                         (dict_set (py ''memory_context'') (memory_context memory) parsed)
                  else (Inr (dict_set (py ''memory_context'') (memory_context memory) parsed),
                        st1))))))"
  by (simp add: process_input_def assms Let_def storage_call_def
        cong: sum.case_cong if_cong)

text \<open>The stages of a run: it stops before the memory is loaded, after it, or in step 9.\<close>

lemma process_input_cases:
  assumes "process_input E now st a = (r, st')"
  shows "(\<exists>e. r = Inl e \<and> st' = st)
       \<or> (\<exists>st1. (st1 = st \<or> memory_created now st (a_user_id a) st1)
             \<and> (st' = st1
                \<or> (\<exists>result. upsert_and_log E now st1 (a_user_id a)
                       (input_mode_of (has_text (a_text a))
                          (a_audio_file a \<noteq> None \<or> a_audio_bytes a \<noteq> None)
                          (a_image_file a \<noteq> None \<or> a_image_bytes a \<noteq> None)) result
                     = (r, st'))))"
proof -
  obtain g st1 where g: "get_or_create_memory now st (a_user_id a) = (g, st1)"
    by (cases "get_or_create_memory now st (a_user_id a)")
  have l: "st1 = st \<or> memory_created now st (a_user_id a) st1"
    using g by (rule goc_memory_state)
  obtain ab am where au: "resolve_file (unicode E) AUDIO_EXT_MAP (py ''audio/webm'')
      (a_audio_file a) (a_audio_bytes a) (a_audio_mime a) = (ab, am)"
    by (cases "resolve_file (unicode E) AUDIO_EXT_MAP (py ''audio/webm'')
      (a_audio_file a) (a_audio_bytes a) (a_audio_mime a)")
  obtain ib im where im: "resolve_file (unicode E) IMAGE_EXT_MAP (py ''image/jpeg'')
      (a_image_file a) (a_image_bytes a) (a_image_mime a) = (ib, im)"
    by (cases "resolve_file (unicode E) IMAGE_EXT_MAP (py ''image/jpeg'')
      (a_image_file a) (a_image_bytes a) (a_image_mime a)")
  have "ab \<noteq> None \<longleftrightarrow> a_audio_file a \<noteq> None \<or> a_audio_bytes a \<noteq> None"
    using resolve_present [of "unicode E" AUDIO_EXT_MAP "py ''audio/webm''" "a_audio_file a"
      "a_audio_bytes a" "a_audio_mime a"] au by simp
  moreover have "ib \<noteq> None \<longleftrightarrow> a_image_file a \<noteq> None \<or> a_image_bytes a \<noteq> None"
    using resolve_present [of "unicode E" IMAGE_EXT_MAP "py ''image/jpeg''" "a_image_file a"
      "a_image_bytes a" "a_image_mime a"] im by simp
  ultimately have mode:
    "input_mode_of (has_text (a_text a)) (ab \<noteq> None) (ib \<noteq> None)
       = input_mode_of (has_text (a_text a))
           (a_audio_file a \<noteq> None \<or> a_audio_bytes a \<noteq> None)
           (a_image_file a \<noteq> None \<or> a_image_bytes a \<noteq> None)"
    by simp
  show ?thesis
    using assms l unfolding process_input_run [OF au im g] mode
    by (auto split: sum.splits if_splits)
qed

lemma py_length [simp]: "length (py s) = length s"
  by (simp add: py_def)

lemma store_conditions_frame:
  "st'\<lparr>st_conditions := c\<rparr> = st1 \<Longrightarrow>
     st_logs st' = st_logs st1 \<and> st_logs_next st' = st_logs_next st1
     \<and> st_memory st' = st_memory st1 \<and> st_memory_next st' = st_memory_next st1"
  by (cases st', cases st1) auto

section \<open>process_input: closed examples\<close>

lemma example_texts [simp]: "nameless_update_text \<noteq> []" "flu_update_text \<noteq> []"
  by (simp_all add: nameless_update_text_def flu_update_text_def)

lemmas run_defs =
  process_input_def text_and_photo_def text_only_def oracle_env_def log_insert_fails_def
  resolve_file_def has_text_def storage_call_def get_or_create_memory_def get_memory_def
  ObjectId_user1 empty_store_def history_contents_def parse_response_def Let_def
  dict_get_def get_or_def

lemma foc_flu:
  "find_or_create ucd_excerpt now empty_conditions user1 (py ''flu'')
   = (Inr (\<lparr>hc_id = Some 0, hc_user_id = user1, hc_condition_name = py ''Flu'',
             hc_status = ACTIVE, hc_log_count = 1, hc_first_reported = now,
             hc_last_reported = now, hc_created_at = now, hc_updated_at = now\<rparr>, True),
      \<lparr>docs = [\<lparr>d_id = 0, d_user_id = user1, d_condition_name = py ''Flu'',
                d_status = ACTIVE, d_log_count = 1, d_first_reported = now,
                d_last_reported = now, d_created_at = now, d_updated_at = now\<rparr>],
        next_id = Suc 0\<rparr>)"
  by (simp add: find_or_create_def ObjectId_user1 normalise_flu normalise_Flu find_one_def
      same_key_def empty_conditions_def Let_def HealthCondition_init_def to_dict_def
      insert_one_def)

lemma run_empty_reply:
  "process_input (oracle_env None None) now empty_store (text_only user1 (py ''hi''))
   = (Inl (RuntimeError empty_response_message),
      empty_store\<lparr>st_memory := [blank_memory_doc 0 now user1], st_memory_next := Suc 0\<rparr>)"
  by (simp add: run_defs)

lemma run_malformed_reply:
  "process_input (oracle_env (Some (py ''oops'')) None) now empty_store
     (text_only user1 (py ''hi''))
   = (Inl (RuntimeError (invalid_json_prefix @ py ''oops'')),
      empty_store\<lparr>st_memory := [blank_memory_doc 0 now user1], st_memory_next := Suc 0\<rparr>)"
  by (simp add: run_defs)

lemma run_list_reply:
  "process_input (oracle_env (Some (py ''[]'')) (Some None)) now empty_store
     (text_only user1 (py ''hi''))
   = (Inl TypeError,
      empty_store\<lparr>st_memory := [blank_memory_doc 0 now user1], st_memory_next := Suc 0\<rparr>)"
  by (simp add: run_defs)

lemma run_empty_object:
  "process_input (oracle_env (Some (py ''{}'')) (Some (Some []))) now empty_store
     (text_only user1 (py ''hi''))
   = (Inr [(py ''memory_context'',
            memory_context \<lparr>mm_id = Some 0, mm_user_id = user1,
              mm_persona_preferences = default_preferences, mm_summary_memory = [],
              mm_created_at = now, mm_updated_at = now\<rparr>)],
      empty_store\<lparr>st_memory := [blank_memory_doc 0 now user1], st_memory_next := Suc 0\<rparr>)"
  by (simp add: run_defs)


lemmas step9_defs =
  flu_update_def upsert_and_log_def foc_flu join_def append_to_summary_def save_memory_def
  create_from_gemini_result_def summary_line_def py_str_def or_empty_list_def
  blank_memory_doc_def memory_from_dict_def


lemma run_log_insert_fails:
  "process_input (log_insert_fails (oracle_env (Some flu_update_text) (Some (Some flu_update))))
     7 empty_store (text_only user1 (py ''my head hurts''))
   = (Inl (StorageFailure InsertLog),
      \<lparr>st_conditions =
         \<lparr>docs = [\<lparr>d_id = 0, d_user_id = user1, d_condition_name = py ''Flu'',
                   d_status = ACTIVE, d_log_count = 1, d_first_reported = 7,
                   d_last_reported = 7, d_created_at = 7, d_updated_at = 7\<rparr>],
           next_id = Suc 0\<rparr>,
       st_memory =
         [\<lparr>m_id = 0, m_user_id = user1, m_persona_preferences = default_preferences,
           m_summary_memory = py ''flu: pain /10, location , aching (today)'',
           m_created_at = 7, m_updated_at = 7\<rparr>],
       st_memory_next = Suc 0, st_logs = [], st_logs_next = 0\<rparr>)"
  by (simp add: run_defs step9_defs) (simp add: py_def)

section \<open>process_input: the claims\<close>




text \<open>
  C3. \<open>process_input\<close> raises \<open>ValueError\<close> whenever there is no text, no audio and no
  image, whether or not \<open>force_log\<close> is set. The controller lets the call with only
  \<open>force_log\<close> through its own validation, and step 5 has a nudge for a call with
  \<open>force_log\<close> and no parts; the guard in front of them raises before the memory is
  loaded and before the oracle is called, and the controller answers 400.
\<close>

theorem force_log_without_content_rejected:
  "\<not> controller_rejects (force_log_only u) \<and>
   process_input E now st (force_log_only u) = (Inl (ValueError no_input_message), st) \<and>
   error_response (ValueError no_input_message) = (400, no_input_message)"
  by (simp add: controller_rejects_def force_log_only_def process_input_def resolve_file_def
        has_text_def error_response_def)

text \<open>
  C4 (as stated: a run that fails after the validation leaves the stored state exactly as
  it was). The memory is loaded, and for a first-time user created, before the oracle is
  called: when the oracle then answers nothing, the run fails and the blank memory
  document stays. And step 9 writes the card, then the summary, then the log, with nothing
  to undo a write: when the storage is out of reach for the log's insert, the run fails
  and the new card and the new summary line stay, without a log.
\<close>

theorem failed_run_changes_state:
  "process_input (oracle_env None None) 7 empty_store (text_only user1 (py ''hi''))
   = (Inl (RuntimeError empty_response_message),
      empty_store\<lparr>st_memory := [blank_memory_doc 0 7 user1], st_memory_next := Suc 0\<rparr>) \<and>
   empty_store\<lparr>st_memory := [blank_memory_doc 0 7 user1], st_memory_next := Suc 0\<rparr>
     \<noteq> empty_store \<and>
   process_input (log_insert_fails (oracle_env (Some flu_update_text) (Some (Some flu_update))))
     7 empty_store (text_only user1 (py ''my head hurts''))
   = (Inl (StorageFailure InsertLog),
      \<lparr>st_conditions =
         \<lparr>docs = [\<lparr>d_id = 0, d_user_id = user1, d_condition_name = py ''Flu'',
                   d_status = ACTIVE, d_log_count = 1, d_first_reported = 7,
                   d_last_reported = 7, d_created_at = 7, d_updated_at = 7\<rparr>],
           next_id = Suc 0\<rparr>,
       st_memory =
         [\<lparr>m_id = 0, m_user_id = user1, m_persona_preferences = default_preferences,
           m_summary_memory = py ''flu: pain /10, location , aching (today)'',
           m_created_at = 7, m_updated_at = 7\<rparr>],
       st_memory_next = Suc 0, st_logs = [], st_logs_next = 0\<rparr>)"
proof -
  have "st_memory (empty_store\<lparr>st_memory := [blank_memory_doc 0 7 user1],
          st_memory_next := Suc 0\<rparr>) \<noteq> st_memory empty_store"
    by (simp add: empty_store_def)
  then have "empty_store\<lparr>st_memory := [blank_memory_doc 0 7 user1], st_memory_next := Suc 0\<rparr>
     \<noteq> empty_store"
    by metis
  then show ?thesis
    using run_empty_reply [of 7] run_log_insert_fails by simp
qed

text \<open>
  C4 (amended). A failed run of \<open>process_input\<close> creates no log. Unless its error is a
  \<open>TypeError\<close>, an \<open>AttributeError\<close> or a failure of the storage at the summary or at the
  log, it creates and updates no card and changes no existing memory document, and the
  only change it can leave is the blank memory document of a user who had none: this is
  so when the oracle raises, when its answer is empty or does not parse, when the storage
  is out of reach for the memory or for the card, and when the card's insert hits the
  unique index. A run that fails with a \<open>TypeError\<close> or an \<open>AttributeError\<close> (an answer of
  another shape) or with the storage out of reach for the summary can leave, besides, the
  card created or updated, but no summary line; a run that fails with the storage out of
  reach for the log can leave the card and the summary line.
\<close>

theorem failed_run_state:
  assumes "process_input E now st a = (Inl e, st')"
  shows "st_logs st' = st_logs st \<and> st_logs_next st' = st_logs_next st \<and>
         (e \<noteq> TypeError \<and> e \<noteq> AttributeError \<and> e \<noteq> StorageFailure AppendSummary
            \<and> e \<noteq> StorageFailure InsertLog \<longrightarrow>
          st' = st \<or> memory_created now st (a_user_id a) st') \<and>
         (e \<noteq> StorageFailure InsertLog \<longrightarrow>
          st'\<lparr>st_conditions := st_conditions st\<rparr> = st
          \<or> memory_created now st (a_user_id a) (st'\<lparr>st_conditions := st_conditions st\<rparr>))"
proof -
  from process_input_cases [OF assms] consider
      (unchanged) "st' = st"
    | (loaded) st1 where "st1 = st \<or> memory_created now st (a_user_id a) st1" "st' = st1"
    | (step9) st1 m result where "st1 = st \<or> memory_created now st (a_user_id a) st1"
        "upsert_and_log E now st1 (a_user_id a) m result = (Inl e, st')"
    by blast
  then show ?thesis
  proof cases
    case unchanged
    then show ?thesis by simp
  next
    case loaded
    have "st_conditions st1 = st_conditions st"
      using loaded(1) by (auto dest: memory_created_frame)
    then have a: "st'\<lparr>st_conditions := st_conditions st\<rparr> = st1"
      using loaded(2) by simp
    show ?thesis unfolding a using loaded by (auto dest: memory_created_frame)
  next
    case step9
    have f: "st_conditions st1 = st_conditions st" "st_logs st1 = st_logs st"
        "st_logs_next st1 = st_logs_next st"
      using step9(1) by (auto dest: memory_created_frame)
    then have s: "st1\<lparr>st_conditions := st_conditions st\<rparr> = st1" by simp
    from upsert_cases [OF step9(2)] consider
        (early) "st' = st1"
      | (card) "st'\<lparr>st_conditions := st_conditions st1\<rparr> = st1"
          "e = TypeError \<or> e = AttributeError \<or> e = StorageFailure AppendSummary"
      | (summary) "e = StorageFailure InsertLog" "st_logs st' = st_logs st1"
          "st_logs_next st' = st_logs_next st1"
      by auto
    then show ?thesis
    proof cases
      case early
      then have a: "st'\<lparr>st_conditions := st_conditions st\<rparr> = st1"
        using s by simp
      show ?thesis unfolding a using early step9(1) f by auto
    next
      case card
      from store_conditions_frame [OF card(1)] have l: "st_logs st' = st_logs st"
          "st_logs_next st' = st_logs_next st"
        using f by simp_all
      have a: "st'\<lparr>st_conditions := st_conditions st\<rparr> = st1"
        using card(1) f by simp
      show ?thesis unfolding a using l card(2) step9(1) by auto
    next
      case summary
      then show ?thesis using f by simp
    qed
  qed
qed

theorem failed_run_state_witness:
  "process_input (oracle_env None None) 7 empty_store (text_only user1 (py ''hi''))
   = (Inl (RuntimeError empty_response_message),
      empty_store\<lparr>st_memory := [blank_memory_doc 0 7 user1], st_memory_next := Suc 0\<rparr>) \<and>
   st_logs (empty_store\<lparr>st_memory := [blank_memory_doc 0 7 user1],
              st_memory_next := Suc 0\<rparr>) = st_logs empty_store \<and>
   memory_created 7 empty_store user1
     (empty_store\<lparr>st_memory := [blank_memory_doc 0 7 user1], st_memory_next := Suc 0\<rparr>)"
proof -
  have run: "process_input (oracle_env None None) 7 empty_store (text_only user1 (py ''hi''))
     = (Inl (RuntimeError empty_response_message),
        empty_store\<lparr>st_memory := [blank_memory_doc 0 7 user1], st_memory_next := Suc 0\<rparr>)"
    by (rule run_empty_reply)
  have "st_memory (empty_store\<lparr>st_memory := [blank_memory_doc 0 7 user1],
          st_memory_next := Suc 0\<rparr>) \<noteq> st_memory empty_store"
    by (simp add: empty_store_def)
  then have changed:
    "empty_store\<lparr>st_memory := [blank_memory_doc 0 7 user1], st_memory_next := Suc 0\<rparr>
     \<noteq> empty_store"
    by metis
  have u: "a_user_id (text_only user1 (py ''hi'')) = user1"
    by (simp add: text_only_def)
  from failed_run_state [OF run] changed u run show ?thesis
    by simp
qed

text \<open>
  C5 (as stated: an empty answer fails with one kind of error, an answer that does not
  parse as the expected structure with another, distinct one). Both failures raise
  \<open>RuntimeError\<close>, and the controller answers both with 502. And only the syntax is
  checked: the text \<open>[]\<close>, which is not an object, fails one step later with
  \<open>TypeError\<close>, answered with 500, and the text \<open>{}\<close>, an object with none of the
  required fields, does not fail at all.
\<close>

theorem oracle_failures_share_a_class:
  "fst (process_input (oracle_env None None) 0 empty_store (text_only user1 (py ''hi'')))
     = Inl (RuntimeError empty_response_message) \<and>
   fst (process_input (oracle_env (Some (py ''oops'')) None) 0 empty_store
          (text_only user1 (py ''hi'')))
     = Inl (RuntimeError (invalid_json_prefix @ py ''oops'')) \<and>
   fst (error_response (RuntimeError empty_response_message)) = 502 \<and>
   fst (error_response (RuntimeError (invalid_json_prefix @ py ''oops''))) = 502 \<and>
   fst (process_input (oracle_env (Some (py ''[]'')) (Some None)) 0 empty_store
          (text_only user1 (py ''hi'')))
     = Inl TypeError \<and>
   fst (error_response TypeError) = 500 \<and>
   fst (process_input (oracle_env (Some (py ''{}'')) (Some (Some []))) 0 empty_store
          (text_only user1 (py ''hi'')))
     = Inr [(py ''memory_context'',
             memory_context \<lparr>mm_id = Some 0, mm_user_id = user1,
               mm_persona_preferences = default_preferences, mm_summary_memory = [],
               mm_created_at = 0, mm_updated_at = 0\<rparr>)]"
  by (simp add: run_empty_reply run_malformed_reply run_list_reply run_empty_object
        error_response_def)

lemma reaches_oracle:
  assumes "has_text (a_text a) \<or> a_audio_file a \<noteq> None \<or> a_audio_bytes a \<noteq> None
           \<or> a_image_file a \<noteq> None \<or> a_image_bytes a \<noteq> None"
    and "\<not> storage_fails E LoadMemory"
    and "ObjectId (a_user_id a) = Inr ou"
    and "history_contents (a_conversation_history a) = Inr turns"
    and "\<forall>si cs. generate_content E si cs = Inr raw"
    and "parse_response E raw = Inl e"
  shows "fst (process_input E now st a) = Inl e"
proof -
  from goc_memory_ok [OF assms(3)] obtain m st1
    where g: "get_or_create_memory now st (a_user_id a) = (Inr m, st1)" by blast
  obtain ab am where au: "resolve_file (unicode E) AUDIO_EXT_MAP (py ''audio/webm'')
      (a_audio_file a) (a_audio_bytes a) (a_audio_mime a) = (ab, am)"
    by (cases "resolve_file (unicode E) AUDIO_EXT_MAP (py ''audio/webm'')
      (a_audio_file a) (a_audio_bytes a) (a_audio_mime a)")
  obtain ib im where im: "resolve_file (unicode E) IMAGE_EXT_MAP (py ''image/jpeg'')
      (a_image_file a) (a_image_bytes a) (a_image_mime a) = (ib, im)"
    by (cases "resolve_file (unicode E) IMAGE_EXT_MAP (py ''image/jpeg'')
      (a_image_file a) (a_image_bytes a) (a_image_mime a)")
  have "ab = None \<longleftrightarrow> a_audio_file a = None \<and> a_audio_bytes a = None"
    using resolve_present [of "unicode E" AUDIO_EXT_MAP "py ''audio/webm''" "a_audio_file a"
      "a_audio_bytes a" "a_audio_mime a"] au by simp
  moreover have "ib = None \<longleftrightarrow> a_image_file a = None \<and> a_image_bytes a = None"
    using resolve_present [of "unicode E" IMAGE_EXT_MAP "py ''image/jpeg''" "a_image_file a"
      "a_image_bytes a" "a_image_mime a"] im by simp
  ultimately have p: "\<not> (\<not> has_text (a_text a) \<and> ab = None \<and> ib = None)"
    using assms(1) by auto
  show ?thesis
    unfolding process_input_run [OF au im g] if_not_P [OF p]
    using assms(2,4,5,6) by simp
qed

lemma message_prefix_differs: "empty_response_message \<noteq> invalid_json_prefix @ r"
proof
  assume "empty_response_message = invalid_json_prefix @ r"
  then have "take 17 empty_response_message = take 17 (invalid_json_prefix @ r)"
    by simp
  then show False
    by (simp add: empty_response_message_def invalid_json_prefix_def py_def)
qed

text \<open>
  C5 (amended). In a run that reaches the oracle, an answer without text fails with
  \<open>RuntimeError("Gemini returned an empty response.")\<close> and a text that does not parse
  fails with \<open>RuntimeError\<close> of "Gemini returned invalid JSON: " followed by the first
  200 characters of the text. The two are of the same class, which is not the
  \<open>ValueError\<close> of an invalid input, and the controller answers both with 502; they differ
  in the message only. Nothing but the syntax is checked: a text that parses to something
  else than an object is no failure of this step (the next one raises \<open>TypeError\<close>, and
  the controller answers 500).
\<close>

theorem oracle_failures_differ_in_message:
  assumes "has_text (a_text a) \<or> a_audio_file a \<noteq> None \<or> a_audio_bytes a \<noteq> None
           \<or> a_image_file a \<noteq> None \<or> a_image_bytes a \<noteq> None"
    and "\<not> storage_fails E LoadMemory"
    and "ObjectId (a_user_id a) = Inr ou"
    and "history_contents (a_conversation_history a) = Inr turns"
    and "\<forall>si cs. generate_content E si cs = Inr raw"
  shows "(raw = None \<or> raw = Some [] \<longrightarrow>
            fst (process_input E now st a) = Inl (RuntimeError empty_response_message)) \<and>
         (\<forall>r. raw = Some r \<and> r \<noteq> [] \<and> json_loads E r = None \<longrightarrow>
            fst (process_input E now st a)
              = Inl (RuntimeError (invalid_json_prefix @ take 200 r))) \<and>
         (\<forall>r. raw = Some r \<and> r \<noteq> [] \<and> json_loads E r = Some None \<longrightarrow>
            fst (process_input E now st a) = Inl TypeError) \<and>
         (\<forall>r. empty_response_message \<noteq> invalid_json_prefix @ r) \<and>
         (\<forall>m. error_response (RuntimeError m) = (502, m)) \<and>
         fst (error_response TypeError) = 500 \<and>
         (\<forall>m m'. ValueError m \<noteq> RuntimeError m')"
proof -
  have "fst (process_input E now st a) = Inl (RuntimeError empty_response_message)"
    if "raw = None \<or> raw = Some []"
    using that by (intro reaches_oracle [OF assms]) (auto simp: parse_response_def)
  moreover have "fst (process_input E now st a)
      = Inl (RuntimeError (invalid_json_prefix @ take 200 r))"
    if "raw = Some r \<and> r \<noteq> [] \<and> json_loads E r = None" for r
    using that by (intro reaches_oracle [OF assms]) (auto simp: parse_response_def)
  moreover have "fst (process_input E now st a) = Inl TypeError"
    if "raw = Some r \<and> r \<noteq> [] \<and> json_loads E r = Some None" for r
    using that by (intro reaches_oracle [OF assms]) (auto simp: parse_response_def)
  moreover have "(\<forall>r. empty_response_message \<noteq> invalid_json_prefix @ r) \<and>
         (\<forall>m. error_response (RuntimeError m) = (502, m)) \<and>
         fst (error_response TypeError) = 500 \<and>
         (\<forall>m m'. ValueError m \<noteq> RuntimeError m')"
    by (simp add: message_prefix_differs error_response_def)
  ultimately show ?thesis
    by blast
qed

theorem oracle_failures_differ_in_message_witness:
  "fst (process_input (oracle_env None None) 0 empty_store (text_only user1 (py ''hi'')))
     = Inl (RuntimeError empty_response_message) \<and>
   fst (process_input (oracle_env (Some (py ''oops'')) None) 0 empty_store
          (text_only user1 (py ''hi'')))
     = Inl (RuntimeError (invalid_json_prefix @ py ''oops'')) \<and>
   fst (process_input (oracle_env (Some (py ''[]'')) (Some None)) 0 empty_store
          (text_only user1 (py ''hi'')))
     = Inl TypeError \<and>
   empty_response_message \<noteq> invalid_json_prefix @ py ''oops''"
  using oracle_failures_differ_in_message
          [of "text_only user1 (py ''hi'')" "oracle_env None None" user1 "[]" None 0
              empty_store]
        oracle_failures_differ_in_message
          [of "text_only user1 (py ''hi'')" "oracle_env (Some (py ''oops'')) None" user1 "[]"
              "Some (py ''oops'')" 0 empty_store]
        oracle_failures_differ_in_message
          [of "text_only user1 (py ''hi'')" "oracle_env (Some (py ''[]'')) (Some None)" user1
              "[]" "Some (py ''[]'')" 0 empty_store]
  by (simp add: text_only_def has_text_def ObjectId_user1 history_contents_def oracle_env_def)



end
